theory Spec2Isabelle
  imports Main "HOL-Library.Word"
begin

unbundle bit_operations_syntax

section \<open>Data model of EPCGenericRTDyldMemoryManager\<close>

text \<open>
  Addresses in the executor (\<open>ExecutorAddr\<close>), sizes (\<open>uintptr_t\<close>, \<open>uint64_t\<close>,
  \<open>size_t\<close> on a 64-bit host) and local pointers are 64-bit words; alignments and the
  page size (\<open>unsigned\<close>, \<open>uint32_t\<close>) are 32-bit words. All arithmetic wraps.

  The functions modelled are those of EPCGenericRTDyldMemoryManager.cpp. The header
  that declares the manager's types and the support headers it includes are not among
  the source files at hand: the types below have the members the functions use.
\<close>

type_synonym addr = "64 word"

text \<open>
  Modelled from the spec: \<open>ExecutorAddrRange\<close>, declared outside the source files at
  hand, is a start address and a byte length with a contains-point test. The members
  used by the code are \<open>Start\<close> and \<open>End\<close>; the constructor from a start and a size
  stores \<open>End = Start + Size\<close>, and \<open>contains\<close> is \<open>Start \<le> Addr \<and> Addr < End\<close>.
\<close>

record ExecutorAddrRange =
  Start :: addr
  End :: addr

definition mkRange :: "addr \<Rightarrow> 64 word \<Rightarrow> ExecutorAddrRange" where
  "mkRange S Sz = \<lparr>Start = S, End = S + Sz\<rparr>"

definition contains :: "ExecutorAddrRange \<Rightarrow> addr \<Rightarrow> bool" where
  "contains R A = (Start R \<le> A \<and> A < End R)"

text \<open>
  Modelled from the spec: \<open>Alloc\<close>, one section's staging buffer, with its size, its
  alignment, the owned local buffer and the remote address it was mapped to (the struct
  is declared in the header). \<open>Contents\<close> is the base address of the buffer, the value
  of \<open>Contents.get()\<close>; the bytes in it play no role in what follows.
\<close>

record Alloc =
  Size :: "64 word"
  Align :: "32 word"
  Contents :: addr
  RemoteAddr :: addr

text \<open>
  Modelled from the spec: a pending unwind frame (address and size), and \<open>AllocGroup\<close>,
  the unit of one loaded object: three sequences of Allocs, three remote ranges and the
  pending frames. \<open>SymbolAddrs\<close> holds the resolved addresses of the remote entry
  points and of the remote manager instance.
\<close>

record EHFrame =
  FrameAddr :: addr
  FrameSize :: "64 word"

record AllocGroup =
  CodeAllocs :: "Alloc list"
  RODataAllocs :: "Alloc list"
  RWDataAllocs :: "Alloc list"
  RemoteCode :: ExecutorAddrRange
  RemoteROData :: ExecutorAddrRange
  RemoteRWData :: ExecutorAddrRange
  UnfinalizedEHFrames :: "EHFrame list"

record SymbolAddrs =
  Instance :: addr
  Reserve :: addr
  Finalize :: addr
  Deallocate :: addr
  RegisterEHFrame :: addr
  DeregisterEHFrame :: addr

subsection \<open>Finalize requests and remote calls\<close>

datatype ProtectionFlag = MF_READ | MF_WRITE | MF_EXEC

text \<open>
  Modelled from the spec: the protection classes (read, execute), (read) and
  (read, write). The enumerators of \<open>sys::Memory\<close> and the wire encoding of
  \<open>tpctypes::toWireProtectionFlags\<close> are declared outside the source files at hand; a
  set of flags stands for both, and the conversion keeps the set.
\<close>

definition toWireProtectionFlags :: "ProtectionFlag set \<Rightarrow> ProtectionFlag set" where
  "toWireProtectionFlags PF = PF"

text \<open>
  One \<open>memcpy\<close> into an aggregate buffer: destination offset, source pointer, length.
  The content of a segment is the buffer filled by these copies, together with the
  length \<open>SecOffset\<close> handed over with it.
\<close>

record Memcpy =
  Dst :: "64 word"
  Src :: addr
  Len :: "64 word"

record SegFinalizeRequest =
  Prot :: "ProtectionFlag set"
  Addr :: addr
  SegSize :: "64 word"
  ContentCopies :: "Memcpy list"
  ContentSize :: "64 word"

text \<open>An action pair: (function address, frame address, frame size) to run on
  finalization and on deallocation.\<close>

type_synonym WrapperFunctionCall = "addr \<times> addr \<times> 64 word"

record FinalizeRequest =
  Segments :: "SegFinalizeRequest list"
  Actions :: "(WrapperFunctionCall \<times> WrapperFunctionCall) list"

text \<open>
  Modelled from the spec: the call channel. A call through \<open>EPC.callSPSWrapper\<close> is
  the address of the wrapper function in the executor and the arguments, tagged with
  the signature they are serialized under.
\<close>

datatype WrapperArgs =
    ReserveArgs addr "64 word"
  | FinalizeArgs addr FinalizeRequest
  | DeallocateArgs addr "addr list"

datatype WrapperCall = WrapperCall (FnAddr: addr) (Args: WrapperArgs)

text \<open>
  What a call comes back with: a channel-level error (the \<open>Error\<close> returned by
  \<open>callSPSWrapper\<close>), an error reported by the executor (the failure held by the result
  argument), or success with a returned address (ignored by the signatures that return
  only an error). The strings are the texts \<open>toString\<close> gives for the errors.
\<close>

datatype CallResult = ChannelError string | ExecutorError string | Returned addr

text \<open>
  The executor process control: its page size, and how it answers a call given the
  calls issued before.
\<close>

record ExecutorProcessControl =
  getPageSize :: "32 word"
  respond :: "WrapperCall list \<Rightarrow> WrapperCall \<Rightarrow> CallResult"

subsection \<open>Manager state\<close>

text \<open>
  The members of the manager, and what it does to the outside: \<open>Calls\<close> lists the remote
  calls issued so far, \<open>DyldMap\<close> the calls of \<open>Dyld.mapSectionAddress\<close> (local pointer,
  target address), \<open>ErrsOut\<close> and \<open>DbgsOut\<close> what was written to \<open>errs()\<close> and
  \<open>dbgs()\<close>. The mutex is not modelled: each operation runs alone.
\<close>

record Manager =
  SAs :: SymbolAddrs
  Unmapped :: "AllocGroup list"
  Unfinalized :: "AllocGroup list"
  FinalizedAllocs :: "addr list"
  ErrMsg :: string
  Calls :: "WrapperCall list"
  DyldMap :: "(addr \<times> addr) list"
  ErrsOut :: "string list"
  DbgsOut :: "string list"

section \<open>registerEHFrames\<close>

definition inGroup :: "AllocGroup \<Rightarrow> addr \<Rightarrow> bool" where
  "inGroup G LA = (contains (RemoteCode G) LA \<or> contains (RemoteROData G) LA \<or>
                   contains (RemoteRWData G) LA)"

definition pushFrame :: "addr \<Rightarrow> 64 word \<Rightarrow> AllocGroup \<Rightarrow> AllocGroup" where
  "pushFrame LA Sz G =
     G\<lparr>UnfinalizedEHFrames := UnfinalizedEHFrames G @ [\<lparr>FrameAddr = LA, FrameSize = Sz\<rparr>]\<rparr>"

text \<open>The loop over \<open>llvm::reverse(Unfinalized)\<close>: the argument is the reversed
  sequence; \<open>None\<close> when the loop ends without a match.\<close>

fun registerLoop :: "addr \<Rightarrow> 64 word \<Rightarrow> AllocGroup list \<Rightarrow> AllocGroup list option" where
  "registerLoop LA Sz [] = None"
| "registerLoop LA Sz (G # Gs) =
     (if inGroup G LA then Some (pushFrame LA Sz G # Gs)
      else map_option ((#) G) (registerLoop LA Sz Gs))"

definition registerEHFrames :: "addr \<Rightarrow> 64 word \<Rightarrow> Manager \<Rightarrow> Manager" where
  "registerEHFrames LoadAddr Sz M =
     (if ErrMsg M \<noteq> [] then M
      else case registerLoop LoadAddr Sz (rev (Unfinalized M)) of
             Some Gs \<Rightarrow> M\<lparr>Unfinalized := rev Gs\<rparr>
           | None \<Rightarrow> M\<lparr>ErrMsg := ''eh-frame does not lie inside unfinalized alloc''\<rparr>)"

section \<open>Alignment helpers\<close>

text \<open>
  Modelled from the spec: \<open>alignTo\<close> of llvm/Support/MathExtras.h (not among the
  source files at hand), rounding a value up to the next multiple of an alignment. It
  is the computation \<open>(Value + Align - 1) / Align * Align\<close> on 64-bit unsigned
  integers, which wraps, and it asserts \<open>Align \<noteq> 0\<close>. In HOL a division by zero is 0,
  so the theorems that depend on a rounded value say which alignments they are about.
\<close>

definition alignTo :: "64 word \<Rightarrow> 64 word \<Rightarrow> 64 word" where
  "alignTo Value A = (Value + A - 1) div A * A"

text \<open>
  Modelled from the spec: \<open>alignAddr\<close> of llvm/Support/Alignment.h (not among the
  source files at hand), the pointer rounded up to the alignment given as
  \<open>Align(Alignment)\<close>.
\<close>

definition alignAddr :: "addr \<Rightarrow> 32 word \<Rightarrow> addr" where
  "alignAddr P Alignment = alignTo P (ucast Alignment)"

text \<open>
  Modelled from the spec: \<open>isPowerOf2_32\<close> of llvm/Support/MathExtras.h (not among
  the source files at hand), the test that a 32-bit value is a power of two, as the bit
  test \<open>Value && !(Value & (Value - 1))\<close>.
\<close>

definition isPowerOf2_32 :: "32 word \<Rightarrow> bool" where
  "isPowerOf2_32 V = (V \<noteq> 0 \<and> V AND (V - 1) = 0)"

section \<open>allocateCodeSection and allocateDataSection\<close>

text \<open>
  \<open>Unmapped.back()\<close> on an empty vector has no defined result: the model returns this
  fault instead of a value.
\<close>

datatype fault = BackOfEmptyVector

text \<open>
  Modelled from the spec: the constructor \<open>Alloc(Size, Align)\<close> of the header, which
  allocates the staging buffer (over-allocated by \<open>Align - 1\<close> bytes so that the aligned
  pointer fits) and leaves the remote address null. \<open>Buf\<close> is the address the
  allocation returned.
\<close>

definition newAlloc :: "addr \<Rightarrow> 64 word \<Rightarrow> 32 word \<Rightarrow> Alloc" where
  "newAlloc Buf Sz Alignment = \<lparr>Size = Sz, Align = Alignment, Contents = Buf, RemoteAddr = 0\<rparr>"

text \<open>\<open>SectionID\<close> and \<open>SectionName\<close> are used for debug output only and are left out.\<close>

definition allocateCodeSection ::
  "addr \<Rightarrow> 64 word \<Rightarrow> 32 word \<Rightarrow> Manager \<Rightarrow> fault + (addr \<times> Manager)" where
  "allocateCodeSection Buf Sz Alignment M =
     (if Unmapped M = [] then Inl BackOfEmptyVector
      else let G = last (Unmapped M);
               Seg = CodeAllocs G @ [newAlloc Buf Sz Alignment]
           in Inr (alignAddr (Contents (last Seg)) Alignment,
                   M\<lparr>Unmapped := butlast (Unmapped M) @ [G\<lparr>CodeAllocs := Seg\<rparr>]\<rparr>))"

definition allocateDataSection ::
  "addr \<Rightarrow> 64 word \<Rightarrow> 32 word \<Rightarrow> bool \<Rightarrow> Manager \<Rightarrow> fault + (addr \<times> Manager)" where
  "allocateDataSection Buf Sz Alignment IsReadOnly M =
     (if Unmapped M = [] then Inl BackOfEmptyVector
      else let G = last (Unmapped M) in
        if IsReadOnly then
          let Seg = RODataAllocs G @ [newAlloc Buf Sz Alignment]
          in Inr (alignAddr (Contents (last Seg)) Alignment,
                  M\<lparr>Unmapped := butlast (Unmapped M) @ [G\<lparr>RODataAllocs := Seg\<rparr>]\<rparr>)
        else
          let Seg = RWDataAllocs G @ [newAlloc Buf Sz Alignment]
          in Inr (alignAddr (Contents (last Seg)) Alignment,
                  M\<lparr>Unmapped := butlast (Unmapped M) @ [G\<lparr>RWDataAllocs := Seg\<rparr>]\<rparr>))"

section \<open>reserveAllocationSpace\<close>

text \<open>\<open>AllocGroup()\<close>: no sections, null ranges, no frames.\<close>

definition emptyGroup :: AllocGroup where
  "emptyGroup = \<lparr>CodeAllocs = [], RODataAllocs = [], RWDataAllocs = [],
                 RemoteCode = \<lparr>Start = 0, End = 0\<rparr>, RemoteROData = \<lparr>Start = 0, End = 0\<rparr>,
                 RemoteRWData = \<lparr>Start = 0, End = 0\<rparr>, UnfinalizedEHFrames = []\<rparr>"

text \<open>The group pushed on success: three ranges, each starting at the end of the one
  before.\<close>

definition reservedGroup :: "32 word \<Rightarrow> addr \<Rightarrow> 64 word \<Rightarrow> 64 word \<Rightarrow> 64 word \<Rightarrow> AllocGroup" where
  "reservedGroup PageSize TargetAllocAddr CodeSize RODataSize RWDataSize =
     (let G1 = emptyGroup\<lparr>RemoteCode := mkRange TargetAllocAddr (alignTo CodeSize (ucast PageSize))\<rparr>;
          G2 = G1\<lparr>RemoteROData := mkRange (End (RemoteCode G1)) (alignTo RODataSize (ucast PageSize))\<rparr>
      in G2\<lparr>RemoteRWData := mkRange (End (RemoteROData G2)) (alignTo RWDataSize (ucast PageSize))\<rparr>)"

definition reserveAllocationSpace ::
  "ExecutorProcessControl \<Rightarrow> 64 word \<Rightarrow> 32 word \<Rightarrow> 64 word \<Rightarrow> 32 word \<Rightarrow> 64 word \<Rightarrow> 32 word \<Rightarrow>
   Manager \<Rightarrow> Manager" where
  "reserveAllocationSpace EPC CodeSize CodeAlign RODataSize RODataAlign RWDataSize RWDataAlign M =
     (if ErrMsg M \<noteq> [] then M
      else if \<not> isPowerOf2_32 CodeAlign \<or> CodeAlign > getPageSize EPC then
        M\<lparr>ErrMsg := ''Invalid code alignment in reserveAllocationSpace''\<rparr>
      else if \<not> isPowerOf2_32 RODataAlign \<or> RODataAlign > getPageSize EPC then
        M\<lparr>ErrMsg := ''Invalid ro-data alignment in reserveAllocationSpace''\<rparr>
      else if \<not> isPowerOf2_32 RWDataAlign \<or> RWDataAlign > getPageSize EPC then
        M\<lparr>ErrMsg := ''Invalid rw-data alignment in reserveAllocationSpace''\<rparr>
      else
        let TotalSize = 0 + alignTo CodeSize (ucast (getPageSize EPC))
                          + alignTo RODataSize (ucast (getPageSize EPC))
                          + alignTo RWDataSize (ucast (getPageSize EPC));
            C = WrapperCall (Reserve (SAs M)) (ReserveArgs (Instance (SAs M)) TotalSize);
            M1 = M\<lparr>Calls := Calls M @ [C]\<rparr>
        in case respond EPC (Calls M) C of
             ChannelError E \<Rightarrow> M1\<lparr>ErrMsg := E\<rparr>
           | ExecutorError E \<Rightarrow> M1\<lparr>ErrMsg := E\<rparr>
           | Returned TargetAllocAddr \<Rightarrow>
               M1\<lparr>Unmapped := Unmapped M1 @
                    [reservedGroup (getPageSize EPC) TargetAllocAddr CodeSize RODataSize RWDataSize]\<rparr>)"

section \<open>notifyObjectLoaded and mapAllocsToRemoteAddrs\<close>

text \<open>
  The loop of \<open>mapAllocsToRemoteAddrs\<close>. It extends the record of
  \<open>Dyld.mapSectionAddress\<close> calls and returns the Allocs with their remote addresses
  set; the third component is the value of the running address \<open>NextAddr\<close> when the
  loop ends.
\<close>

fun mapAllocsToRemoteAddrs ::
  "(addr \<times> addr) list \<Rightarrow> Alloc list \<Rightarrow> addr \<Rightarrow> (addr \<times> addr) list \<times> Alloc list \<times> addr" where
  "mapAllocsToRemoteAddrs Dyld [] NextAddr = (Dyld, [], NextAddr)"
| "mapAllocsToRemoteAddrs Dyld (A # As) NextAddr =
     (let N1 = alignTo NextAddr (ucast (Align A));
          D1 = Dyld @ [(alignAddr (Contents A) (Align A), N1)];
          A1 = A\<lparr>RemoteAddr := N1\<rparr>;
          N2 = (if N1 \<noteq> 0 then N1 + Size A else N1)
      in case mapAllocsToRemoteAddrs D1 As N2 of
           (D2, As2, N3) \<Rightarrow> (D2, A1 # As2, N3))"

fun notifyLoop :: "Manager \<Rightarrow> AllocGroup list \<Rightarrow> Manager" where
  "notifyLoop M [] = M"
| "notifyLoop M (ObjAllocs # Rest) =
     (case mapAllocsToRemoteAddrs (DyldMap M) (CodeAllocs ObjAllocs)
             (Start (RemoteCode ObjAllocs)) of (D1, CAs, _) \<Rightarrow>
      case mapAllocsToRemoteAddrs D1 (RODataAllocs ObjAllocs)
             (Start (RemoteROData ObjAllocs)) of (D2, ROAs, _) \<Rightarrow>
      case mapAllocsToRemoteAddrs D2 (RWDataAllocs ObjAllocs)
             (Start (RemoteRWData ObjAllocs)) of (D3, RWAs, _) \<Rightarrow>
        notifyLoop
          (M\<lparr>DyldMap := D3,
             Unfinalized := Unfinalized M @
               [ObjAllocs\<lparr>CodeAllocs := CAs, RODataAllocs := ROAs, RWDataAllocs := RWAs\<rparr>]\<rparr>)
          Rest)"

definition notifyObjectLoaded :: "Manager \<Rightarrow> Manager" where
  "notifyObjectLoaded M = (notifyLoop M (Unmapped M))\<lparr>Unmapped := []\<rparr>"

section \<open>finalizeMemory\<close>

text \<open>The first inner loop: the aggregate size of a segment, from \<open>Seg.Size = 0\<close>.\<close>

fun segSizeLoop :: "64 word \<Rightarrow> Alloc list \<Rightarrow> 64 word" where
  "segSizeLoop SzAcc [] = SzAcc"
| "segSizeLoop SzAcc (SecAlloc # Rest) =
     segSizeLoop (alignTo SzAcc (ucast (Align SecAlloc)) + Size SecAlloc) Rest"

text \<open>The second inner loop: the copies into the aggregate buffer and the final
  \<open>SecOffset\<close>.\<close>

fun copyLoop :: "64 word \<Rightarrow> Alloc list \<Rightarrow> Memcpy list \<times> 64 word" where
  "copyLoop SecOffset [] = ([], SecOffset)"
| "copyLoop SecOffset (SecAlloc # Rest) =
     (let Off = alignTo SecOffset (ucast (Align SecAlloc))
      in case copyLoop (Off + Size SecAlloc) Rest of
           (Cs, EndOffset) \<Rightarrow>
             (\<lparr>Dst = Off, Src = alignAddr (Contents SecAlloc) (Align SecAlloc),
               Len = Size SecAlloc\<rparr> # Cs, EndOffset))"

definition makeSegment ::
  "ProtectionFlag set \<Rightarrow> ExecutorAddrRange \<Rightarrow> Alloc list \<Rightarrow> SegFinalizeRequest" where
  "makeSegment P R SegSections =
     (case copyLoop 0 SegSections of
        (Cs, SecOffset) \<Rightarrow>
          \<lparr>Prot = P, Addr = Start R, SegSize = segSizeLoop 0 SegSections,
           ContentCopies = Cs, ContentSize = SecOffset\<rparr>)"

definition frameAction :: "SymbolAddrs \<Rightarrow> EHFrame \<Rightarrow> WrapperFunctionCall \<times> WrapperFunctionCall" where
  "frameAction S Frame =
     ((RegisterEHFrame S, FrameAddr Frame, FrameSize Frame),
      (DeregisterEHFrame S, FrameAddr Frame, FrameSize Frame))"

definition makeRequest :: "SymbolAddrs \<Rightarrow> AllocGroup \<Rightarrow> FinalizeRequest" where
  "makeRequest S ObjAllocs =
     \<lparr>Segments =
        [makeSegment (toWireProtectionFlags {MF_READ, MF_EXEC})
           (RemoteCode ObjAllocs) (CodeAllocs ObjAllocs),
         makeSegment (toWireProtectionFlags {MF_READ})
           (RemoteROData ObjAllocs) (RODataAllocs ObjAllocs),
         makeSegment (toWireProtectionFlags {MF_READ, MF_WRITE})
           (RemoteRWData ObjAllocs) (RWDataAllocs ObjAllocs)],
      Actions = map (frameAction S) (UnfinalizedEHFrames ObjAllocs)\<rparr>"

definition finalizeCall :: "SymbolAddrs \<Rightarrow> AllocGroup \<Rightarrow> WrapperCall" where
  "finalizeCall S ObjAllocs =
     WrapperCall (Finalize S) (FinalizeArgs (Instance S) (makeRequest S ObjAllocs))"

text \<open>
  The loop over the groups taken from \<open>Unfinalized\<close>. \<open>HasOut\<close> says that the
  \<open>ErrMsg\<close> argument is not null. The result is the returned flag (\<open>True\<close> reports
  failure), what was written through the \<open>ErrMsg\<close> argument if anything, and the
  manager afterwards.
\<close>

fun finalizeLoop ::
  "ExecutorProcessControl \<Rightarrow> bool \<Rightarrow> Manager \<Rightarrow> AllocGroup list \<Rightarrow> bool \<times> string option \<times> Manager" where
  "finalizeLoop EPC HasOut M [] = (False, None, M)"
| "finalizeLoop EPC HasOut M (ObjAllocs # Rest) =
     (let C = finalizeCall (SAs M) ObjAllocs;
          M1 = M\<lparr>Calls := Calls M @ [C]\<rparr>
      in case respond EPC (Calls M) C of
           ChannelError E \<Rightarrow>
             (True, if HasOut then Some E else None,
              M1\<lparr>ErrMsg := E,
                 DbgsOut := DbgsOut M1 @ [''Serialization error: '' @ E @ [CHR 0x0A]]\<rparr>)
         | ExecutorError E \<Rightarrow>
             (True, if HasOut then Some E else None,
              M1\<lparr>ErrMsg := E,
                 DbgsOut := DbgsOut M1 @ [''Finalization error: '' @ E @ [CHR 0x0A]]\<rparr>)
         | Returned _ \<Rightarrow> finalizeLoop EPC HasOut M1 Rest)"

text \<open>
  \<open>*ErrMsg = std::move(this->ErrMsg)\<close> leaves the member empty (as the standard
  libraries in use do for a moved-from string). The local vector \<open>Allocs\<close> takes the
  groups by \<open>std::swap\<close> and is destroyed when the function returns.
\<close>

definition finalizeMemory ::
  "ExecutorProcessControl \<Rightarrow> bool \<Rightarrow> Manager \<Rightarrow> bool \<times> string option \<times> Manager" where
  "finalizeMemory EPC HasOut M =
     (if HasOut \<and> ErrMsg M \<noteq> [] then (True, Some (ErrMsg M), M\<lparr>ErrMsg := []\<rparr>)
      else finalizeLoop EPC HasOut (M\<lparr>Unfinalized := []\<rparr>) (Unfinalized M))"

section \<open>The destructor\<close>

text \<open>\<open>logAllUnhandledErrors\<close> writes the text of the error and a newline to
  \<open>errs()\<close>.\<close>

definition destructor :: "ExecutorProcessControl \<Rightarrow> Manager \<Rightarrow> Manager" where
  "destructor EPC M =
     (let M0 = (if ErrMsg M \<noteq> []
                then M\<lparr>ErrsOut := ErrsOut M @
                       [''Destroying with existing errors:'' @ [CHR 0x0A] @ ErrMsg M @ [CHR 0x0A]]\<rparr>
                else M);
          C = WrapperCall (Reserve (SAs M0)) (DeallocateArgs (Instance (SAs M0)) (FinalizedAllocs M0));
          M1 = M0\<lparr>Calls := Calls M0 @ [C]\<rparr>
      in case respond EPC (Calls M0) C of
           ChannelError E \<Rightarrow> M1\<lparr>ErrsOut := ErrsOut M1 @ [E @ [CHR 0x0A]]\<rparr>
         | ExecutorError E \<Rightarrow> M1\<lparr>ErrsOut := ErrsOut M1 @ [E @ [CHR 0x0A]]\<rparr>
         | Returned _ \<Rightarrow> M1)"

section \<open>The layout in unbounded arithmetic\<close>

text \<open>
  The layout as the design describes it, on natural numbers (nothing wraps): walk the
  Allocs in staging order from a running offset, round the running offset up to each
  Alloc's alignment, place the Alloc there, and add its size. \<open>specOffsets\<close> lists
  the places, \<open>specLayoutEnd\<close> is the running offset at the end. The two loops of
  the code are compared with it below.
\<close>

definition roundUp :: "nat \<Rightarrow> nat \<Rightarrow> nat" where
  "roundUp n a = (n + a - 1) div a * a"

fun specOffsets :: "nat \<Rightarrow> Alloc list \<Rightarrow> nat list" where
  "specOffsets Off [] = []"
| "specOffsets Off (A # As) =
     roundUp Off (unat (Align A)) #
     specOffsets (roundUp Off (unat (Align A)) + unat (Size A)) As"

fun specLayoutEnd :: "nat \<Rightarrow> Alloc list \<Rightarrow> nat" where
  "specLayoutEnd Off [] = Off"
| "specLayoutEnd Off (A # As) =
     specLayoutEnd (roundUp Off (unat (Align A)) + unat (Size A)) As"

section \<open>Example configurations\<close>

text \<open>Concrete managers and executors on which the theorems below are instantiated.\<close>

definition exSAs :: SymbolAddrs where
  "exSAs = \<lparr>Instance = 0x10, Reserve = 0x20, Finalize = 0x30, Deallocate = 0x40,
            RegisterEHFrame = 0x50, DeregisterEHFrame = 0x60\<rparr>"

definition exManager :: Manager where
  "exManager = \<lparr>SAs = exSAs, Unmapped = [], Unfinalized = [], FinalizedAllocs = [],
                ErrMsg = [], Calls = [], DyldMap = [], ErrsOut = [], DbgsOut = []\<rparr>"

text \<open>An executor with 4096-byte pages that answers every call with the address
  \<open>0x10000\<close>, and one that reports a failure for every call.\<close>

definition okEPC :: ExecutorProcessControl where
  "okEPC = \<lparr>getPageSize = 4096, respond = (\<lambda>H C. Returned 0x10000)\<rparr>"

definition failEPC :: ExecutorProcessControl where
  "failEPC = \<lparr>getPageSize = 4096, respond = (\<lambda>H C. ExecutorError ''out of memory'')\<rparr>"

text \<open>An executor that accepts the first call it sees and reports a failure for
  every later one.\<close>

definition failSecondEPC :: ExecutorProcessControl where
  "failSecondEPC =
     \<lparr>getPageSize = 4096,
      respond = (\<lambda>H C. if H = [] then Returned 0 else ExecutorError ''out of memory'')\<rparr>"

text \<open>Two reserved groups: one page of code and one of read-only data at \<open>0x10000\<close>,
  and the same at \<open>0x20000\<close>.\<close>

definition exGroupA :: AllocGroup where
  "exGroupA = reservedGroup 4096 0x10000 10 4 0"

definition exGroupB :: AllocGroup where
  "exGroupB = reservedGroup 4096 0x20000 10 4 0"

text \<open>A manager that went through one whole successful cycle (reserve, notify,
  finalize) with \<open>okEPC\<close>, and one whose finalize call failed at the first of two
  groups.\<close>

definition exFinalized :: Manager where
  "exFinalized =
     snd (snd (finalizeMemory okEPC True
       (notifyObjectLoaded (reserveAllocationSpace okEPC 10 1 4 4 0 1 exManager))))"

definition exFailed :: Manager where
  "exFailed =
     snd (snd (finalizeMemory failEPC True (exManager\<lparr>Unfinalized := [exGroupA, exGroupB]\<rparr>)))"

text \<open>Two staged sections (10 bytes, alignment 1; 4 bytes, alignment 4), and two
  sections of one page and of 5 bytes, both with alignment 1.\<close>

definition exAllocs :: "Alloc list" where
  "exAllocs = [newAlloc 0x7000 10 1, newAlloc 0x8000 4 4]"

definition exTopAllocs :: "Alloc list" where
  "exTopAllocs = [newAlloc 0x7000 0x1000 1, newAlloc 0x9000 5 1]"

text \<open>A reservation whose read-only size is \<open>2^64 - 4096\<close>.\<close>

definition exWrapped :: Manager where
  "exWrapped = reserveAllocationSpace okEPC 0x1000 1 0xFFFFFFFFFFFFF000 1 0x1000 1 exManager"

section \<open>Rounding up: the machine computation and the unbounded one\<close>

lemma roundUp_ge: "0 < a \<Longrightarrow> n \<le> roundUp n a"
proof -
  assume a: "0 < a"
  have "(n + a - 1) div a * a + (n + a - 1) mod a = n + a - 1" by (rule div_mult_mod_eq)
  moreover have "(n + a - 1) mod a < a" using a by (rule mod_less_divisor)
  ultimately show ?thesis unfolding roundUp_def by linarith
qed

lemma roundUp_less: "0 < a \<Longrightarrow> roundUp n a < n + a"
proof -
  assume a: "0 < a"
  have "(n + a - 1) div a * a \<le> n + a - 1" by simp
  with a show ?thesis unfolding roundUp_def by linarith
qed

lemma roundUp_dvd: "a dvd roundUp n a"
  by (simp add: roundUp_def)

lemma roundUp_shift: "0 < a \<Longrightarrow> a dvd s \<Longrightarrow> roundUp (s + n) a = s + roundUp n a"
proof -
  assume a: "0 < a" and d: "a dvd s"
  then obtain q where q: "s = q * a" by (auto simp: dvd_def)
  have e: "q * a + n + a - 1 = (n + a - 1) + q * a" using a by linarith
  have "((n + a - 1) + q * a) div a = q + (n + a - 1) div a"
    using a by (subst div_mult_self1) auto
  with e have "(q * a + n + a - 1) div a = q + (n + a - 1) div a" by (simp only:)
  then show ?thesis unfolding roundUp_def q by (simp only: distrib_right)
qed

lemma pow2_headroom:
  assumes "k \<le> 64" "2 ^ k dvd r" "r < (2::nat) ^ 64"
  shows "r + 2 ^ k \<le> 2 ^ 64"
proof -
  from assms(2) obtain q where q: "r = 2 ^ k * q" by (auto simp: dvd_def)
  have e: "(2::nat) ^ 64 = 2 ^ k * 2 ^ (64 - k)" using assms(1)
    by (simp flip: power_add)
  from assms(3) q e have "2 ^ k * q < (2::nat) ^ k * 2 ^ (64 - k)" by simp
  then have "q < 2 ^ (64 - k)" by simp
  then have "Suc q \<le> 2 ^ (64 - k)" by simp
  then have "2 ^ k * Suc q \<le> (2::nat) ^ k * 2 ^ (64 - k)" by (rule mult_le_mono2)
  with q e show ?thesis by simp
qed

lemma unat_alignTo:
  assumes "A \<noteq> 0" "unat V + unat A - 1 < 2 ^ 64"
  shows "unat (alignTo V A) = roundUp (unat V) (unat A)"
proof -
  have a1: "unat (A - 1) = unat A - 1" using assms(1) by (rule unat_minus_one)
  have pos: "0 < unat A" using assms(1) by (simp add: unat_gt_0)
  have "unat V + unat (A - 1) < 2 ^ LENGTH(64)" using assms(2) a1 pos by simp
  then have s: "unat (V + (A - 1)) = unat V + unat (A - 1)" by (simp only: unat_add_lem)
  have v: "V + A - 1 = V + (A - 1)" by simp
  have d: "unat ((V + A - 1) div A) = (unat V + unat A - 1) div unat A"
    using s a1 pos by (simp add: unat_div v)
  have "(unat V + unat A - 1) div unat A * unat A \<le> unat V + unat A - 1" by simp
  with assms(2) have "(unat V + unat A - 1) div unat A * unat A < 2 ^ 64" by linarith
  then have "unat ((V + A - 1) div A) * unat A < 2 ^ LENGTH(64)" using d by simp
  then have "unat ((V + A - 1) div A * A) = unat ((V + A - 1) div A) * unat A"
    by (simp only: unat_mult_lem)
  with d show ?thesis by (simp add: alignTo_def roundUp_def)
qed

lemma unat_alignTo_pow2:
  assumes "unat A = 2 ^ k" "k \<le> 64" "roundUp (unat V) (unat A) < 2 ^ 64"
  shows "unat (alignTo V A) = roundUp (unat V) (unat A)"
proof -
  have pos: "0 < unat A" using assms(1) by simp
  then have nz: "A \<noteq> 0" by (simp add: unat_gt_0)
  have "roundUp (unat V) (unat A) + 2 ^ k \<le> 2 ^ 64"
    using assms roundUp_dvd [of "unat A" "unat V"] by (intro pow2_headroom) simp_all
  moreover have "unat V \<le> roundUp (unat V) (unat A)" using pos by (rule roundUp_ge)
  ultimately have "unat V + unat A - 1 < 2 ^ 64" using assms(1) pos by simp
  with nz show ?thesis by (rule unat_alignTo)
qed

text \<open>The bit test \<open>isPowerOf2_32\<close> holds exactly of the powers of two below
  \<open>2^32\<close>.\<close>

lemma nat_and_pred_pow2:
  fixes n :: nat
  shows "0 < n \<Longrightarrow> n AND (n - 1) = 0 \<Longrightarrow> \<exists>k. n = 2 ^ k"
proof (induction n rule: less_induct)
  case (less n)
  show ?case
  proof (cases "even n")
    case True
    then obtain q where q: "n = 2 * q" by (auto elim: evenE)
    with less.prems have qp: "0 < q" by simp
    have "(n - 1) div 2 = q - 1" using q qp by simp
    moreover have "n div 2 = q" using q by simp
    ultimately have "n AND (n - 1) = 2 * (q AND (q - 1))"
      using True by (subst and_nat_rec) simp
    with less.prems have "q AND (q - 1) = 0" by simp
    moreover have "q < n" using q qp by simp
    ultimately obtain k where "q = 2 ^ k" using less.IH qp by blast
    with q have "n = 2 ^ Suc k" by simp
    then show ?thesis by blast
  next
    case False
    then obtain q where q: "n = 2 * q + 1" by (auto elim: oddE)
    have "n AND (n - 1) = 2 * q"
      using q by (subst and_nat_rec) simp
    with less.prems have "q = 0" by simp
    with q have "n = 2 ^ 0" by simp
    then show ?thesis by blast
  qed
qed

lemma isPowerOf2_32_unat:
  assumes "isPowerOf2_32 V"
  shows "\<exists>k<32. unat V = 2 ^ k"
proof -
  from assms have nz: "V \<noteq> 0" and z: "V AND (V - 1) = 0"
    by (simp_all add: isPowerOf2_32_def)
  from nz have pos: "0 < unat V" by (simp add: unat_gt_0)
  have "unat (V AND (V - 1)) = unat V AND unat (V - 1)" by (rule unsigned_and_eq)
  with z nz have "unat V AND (unat V - 1) = 0" by (simp add: unat_minus_one)
  with pos obtain k where k: "unat V = 2 ^ k" using nat_and_pred_pow2 by blast
  have "unat V < 2 ^ 32" using unsigned_less [of V] by simp
  with k have "(2::nat) ^ k < 2 ^ 32" by simp
  then have "k < 32" by (simp only: power_strict_increasing_iff) 
  with k show ?thesis by blast
qed

lemma isPowerOf2_32_power: "k < 32 \<Longrightarrow> isPowerOf2_32 (2 ^ k)"
proof -
  assume k: "k < 32"
  have nz: "(2 :: 32 word) ^ k \<noteq> 0" using k by (simp add: exp_eq_zero_iff)
  have "(2 :: 32 word) ^ k - 1 = mask k" by (simp add: mask_eq_exp_minus_1)
  then have "(2 :: 32 word) ^ k AND (2 ^ k - 1) = take_bit k (2 ^ k)"
    by (simp add: take_bit_eq_mask)
  also have "\<dots> = 0" by (rule iffD2 [OF take_bit_eq_0_iff]) simp
  finally show ?thesis using nz by (simp add: isPowerOf2_32_def)
qed

lemma isPowerOf2_32_iff: "isPowerOf2_32 V \<longleftrightarrow> (\<exists>k<32. V = 2 ^ k)"
proof
  assume "isPowerOf2_32 V"
  from isPowerOf2_32_unat [OF this] obtain k where k: "k < 32" "unat V = 2 ^ k" by blast
  have "V = word_of_nat (unat V)" by simp
  also have "\<dots> = 2 ^ k" by (simp only: k(2)) simp
  finally have "V = 2 ^ k" .
  with k(1) show "\<exists>k<32. V = 2 ^ k" by blast
next
  assume "\<exists>k<32. V = 2 ^ k"
  then show "isPowerOf2_32 V" using isPowerOf2_32_power by blast
qed

lemma unat_ucast_align: "unat (ucast (V :: 32 word) :: 64 word) = unat V"
proof -
  have "unat V < 2 ^ 32" using unsigned_less [of V] by simp
  then have "unat V < 2 ^ 64" by simp
  then show ?thesis by (simp add: unsigned_ucast_eq take_bit_nat_eq_self)
qed

lemma specLayoutEnd_ge:
  "\<forall>A \<in> set As. 0 < unat (Align A) \<Longrightarrow> Off \<le> specLayoutEnd Off As"
proof (induction As arbitrary: Off)
  case Nil
  then show ?case by simp
next
  case (Cons A As)
  have "Off \<le> roundUp Off (unat (Align A))" using Cons.prems by (simp add: roundUp_ge)
  also have "\<dots> \<le> roundUp Off (unat (Align A)) + unat (Size A)" by simp
  also have "\<dots> \<le> specLayoutEnd (roundUp Off (unat (Align A)) + unat (Size A)) As"
    using Cons.prems by (intro Cons.IH) simp
  finally show ?case by simp
qed

text \<open>One step of either loop, read in unbounded arithmetic.\<close>

lemma align_step:
  assumes p: "isPowerOf2_32 (Align A)"
    and b: "roundUp (unat N) (unat (Align A)) + unat (Size A) < 2 ^ 64"
  shows "unat (alignTo N (ucast (Align A))) = roundUp (unat N) (unat (Align A))"
    and "unat (alignTo N (ucast (Align A)) + Size A) =
           roundUp (unat N) (unat (Align A)) + unat (Size A)"
proof -
  from isPowerOf2_32_unat [OF p] obtain k where k: "k < 32" "unat (Align A) = 2 ^ k" by blast
  have u: "unat (ucast (Align A) :: 64 word) = 2 ^ k" using k by (simp add: unat_ucast_align)
  have "roundUp (unat N) (unat (ucast (Align A) :: 64 word)) < 2 ^ 64"
    using b k u by simp
  with u k(1) have "unat (alignTo N (ucast (Align A))) =
      roundUp (unat N) (unat (ucast (Align A) :: 64 word))"
    by (intro unat_alignTo_pow2 [where k = k]) simp_all
  then show 1: "unat (alignTo N (ucast (Align A))) = roundUp (unat N) (unat (Align A))"
    using u k by simp
  have "unat (alignTo N (ucast (Align A))) + unat (Size A) < 2 ^ LENGTH(64)"
    using 1 b by simp
  then have "unat (alignTo N (ucast (Align A)) + Size A) =
      unat (alignTo N (ucast (Align A))) + unat (Size A)"
    by (simp only: unat_add_lem)
  with 1 show "unat (alignTo N (ucast (Align A)) + Size A) =
           roundUp (unat N) (unat (Align A)) + unat (Size A)" by simp
qed

lemma isPowerOf2_32_pos: "isPowerOf2_32 V \<Longrightarrow> 0 < unat V"
  by (simp add: isPowerOf2_32_def unat_gt_0)

lemma copyLoop_Cons:
  "fst (copyLoop Off (A # As)) =
     \<lparr>Dst = alignTo Off (ucast (Align A)), Src = alignAddr (Contents A) (Align A),
      Len = Size A\<rparr> # fst (copyLoop (alignTo Off (ucast (Align A)) + Size A) As)"
  "snd (copyLoop Off (A # As)) = snd (copyLoop (alignTo Off (ucast (Align A)) + Size A) As)"
  by (simp_all add: Let_def case_prod_beta)

lemma mapAllocs_Cons:
  "fst (snd (mapAllocsToRemoteAddrs D (A # As) N)) =
     A\<lparr>RemoteAddr := alignTo N (ucast (Align A))\<rparr> #
     fst (snd (mapAllocsToRemoteAddrs
       (D @ [(alignAddr (Contents A) (Align A), alignTo N (ucast (Align A)))]) As
       (if alignTo N (ucast (Align A)) \<noteq> 0 then alignTo N (ucast (Align A)) + Size A
        else alignTo N (ucast (Align A)))))"
  "snd (snd (mapAllocsToRemoteAddrs D (A # As) N)) =
     snd (snd (mapAllocsToRemoteAddrs
       (D @ [(alignAddr (Contents A) (Align A), alignTo N (ucast (Align A)))]) As
       (if alignTo N (ucast (Align A)) \<noteq> 0 then alignTo N (ucast (Align A)) + Size A
        else alignTo N (ucast (Align A)))))"
  by (simp_all add: Let_def case_prod_beta)

lemma copyLoop_spec:
  assumes "\<forall>A \<in> set As. isPowerOf2_32 (Align A)"
    and "specLayoutEnd (unat Off) As < 2 ^ 64"
  shows "map (\<lambda>C. unat (Dst C)) (fst (copyLoop Off As)) = specOffsets (unat Off) As \<and>
         unat (snd (copyLoop Off As)) = specLayoutEnd (unat Off) As"
  using assms
proof (induction As arbitrary: Off)
  case Nil
  then show ?case by simp
next
  case (Cons A As)
  let ?r = "roundUp (unat Off) (unat (Align A)) + unat (Size A)"
  have pos: "\<forall>B \<in> set As. 0 < unat (Align B)"
    using Cons.prems(1) by (simp add: isPowerOf2_32_pos)
  have "?r \<le> specLayoutEnd ?r As" using pos by (rule specLayoutEnd_ge)
  with Cons.prems(2) have b: "?r < 2 ^ 64" by simp
  have p: "isPowerOf2_32 (Align A)" using Cons.prems(1) by simp
  note st = align_step [OF p b]
  have "specLayoutEnd (unat (alignTo Off (ucast (Align A)) + Size A)) As < 2 ^ 64"
    using Cons.prems(2) st(2) by simp
  with Cons.IH [of "alignTo Off (ucast (Align A)) + Size A"] Cons.prems(1)
  have "map (\<lambda>C. unat (Dst C)) (fst (copyLoop (alignTo Off (ucast (Align A)) + Size A) As)) =
          specOffsets ?r As \<and>
        unat (snd (copyLoop (alignTo Off (ucast (Align A)) + Size A) As)) = specLayoutEnd ?r As"
    using st(2) by simp
  with st(1) show ?case by (simp add: copyLoop_Cons del: copyLoop.simps)
qed

lemma mapAllocs_spec:
  assumes "\<forall>A \<in> set As. isPowerOf2_32 (Align A)"
    and "specLayoutEnd (unat N) As < 2 ^ 64"
    and "N \<noteq> 0"
  shows "map (\<lambda>A. unat (RemoteAddr A)) (fst (snd (mapAllocsToRemoteAddrs D As N))) =
           specOffsets (unat N) As \<and>
         unat (snd (snd (mapAllocsToRemoteAddrs D As N))) = specLayoutEnd (unat N) As"
  using assms
proof (induction As arbitrary: D N)
  case Nil
  then show ?case by simp
next
  case (Cons A As)
  let ?r = "roundUp (unat N) (unat (Align A)) + unat (Size A)"
  let ?N1 = "alignTo N (ucast (Align A))"
  let ?D1 = "D @ [(alignAddr (Contents A) (Align A), ?N1)]"
  have pos: "\<forall>B \<in> set As. 0 < unat (Align B)"
    using Cons.prems(1) by (simp add: isPowerOf2_32_pos)
  have "?r \<le> specLayoutEnd ?r As" using pos by (rule specLayoutEnd_ge)
  with Cons.prems(2) have b: "?r < 2 ^ 64" by simp
  have p: "isPowerOf2_32 (Align A)" using Cons.prems(1) by simp
  note st = align_step [OF p b]
  have "unat N \<le> roundUp (unat N) (unat (Align A))"
    using p by (intro roundUp_ge) (rule isPowerOf2_32_pos)
  moreover have "0 < unat N" using Cons.prems(3) by (simp add: unat_gt_0)
  ultimately have "0 < unat ?N1" "0 < unat (?N1 + Size A)" using st by simp_all
  then have nz: "?N1 \<noteq> 0" "?N1 + Size A \<noteq> 0" by (simp_all add: unat_gt_0)
  have "specLayoutEnd (unat (?N1 + Size A)) As < 2 ^ 64"
    using Cons.prems(2) st(2) by simp
  with Cons.IH [of "?N1 + Size A" ?D1] Cons.prems(1) nz(2)
  have "map (\<lambda>A. unat (RemoteAddr A)) (fst (snd (mapAllocsToRemoteAddrs ?D1 As (?N1 + Size A)))) =
          specOffsets ?r As \<and>
        unat (snd (snd (mapAllocsToRemoteAddrs ?D1 As (?N1 + Size A)))) = specLayoutEnd ?r As"
    using st(2) by simp
  with st(1) nz(1) show ?case
    by (simp add: mapAllocs_Cons del: mapAllocsToRemoteAddrs.simps)
qed

lemma spec_shift:
  assumes "\<forall>A \<in> set As. 0 < unat (Align A) \<and> unat (Align A) dvd s"
  shows "specOffsets (s + n) As = map ((+) s) (specOffsets n As) \<and>
         specLayoutEnd (s + n) As = s + specLayoutEnd n As"
  using assms
proof (induction As arbitrary: n)
  case Nil
  then show ?case by simp
next
  case (Cons A As)
  have r: "roundUp (s + n) (unat (Align A)) = s + roundUp n (unat (Align A))"
    using Cons.prems by (intro roundUp_shift) simp_all
  have "specOffsets (s + (roundUp n (unat (Align A)) + unat (Size A))) As =
          map ((+) s) (specOffsets (roundUp n (unat (Align A)) + unat (Size A)) As) \<and>
        specLayoutEnd (s + (roundUp n (unat (Align A)) + unat (Size A))) As =
          s + specLayoutEnd (roundUp n (unat (Align A)) + unat (Size A)) As"
    using Cons.prems by (intro Cons.IH) simp
  with r show ?case by (simp add: add.assoc)
qed

lemma segSizeLoop_copyLoop: "segSizeLoop Off As = snd (copyLoop Off As)"
  by (induction As arbitrary: Off) (simp_all add: copyLoop_Cons del: copyLoop.simps(2))

lemma copyLoop_mapped:
  "copyLoop Off (fst (snd (mapAllocsToRemoteAddrs D As N))) = copyLoop Off As"
proof (induction As arbitrary: Off D N)
  case Nil
  then show ?case by simp
next
  case (Cons A As)
  show ?case
    by (rule prod_eqI)
       (simp_all add: mapAllocs_Cons copyLoop_Cons Cons.IH
          del: mapAllocsToRemoteAddrs.simps copyLoop.simps)
qed

lemma length_mapped: "length (fst (snd (mapAllocsToRemoteAddrs D As N))) = length As"
  by (induction As arbitrary: D N)
     (simp_all add: mapAllocs_Cons del: mapAllocsToRemoteAddrs.simps(2))

lemma alignTo_rounds_up:
  assumes "A \<noteq> 0" "unat V + unat A - 1 < 2 ^ 64"
  shows "unat A dvd unat (alignTo V A) \<and> unat V \<le> unat (alignTo V A) \<and>
         unat (alignTo V A) < unat V + unat A"
proof -
  have pos: "0 < unat A" using assms(1) by (simp add: unat_gt_0)
  have "unat (alignTo V A) = roundUp (unat V) (unat A)" using assms by (rule unat_alignTo)
  with pos show ?thesis by (simp add: roundUp_dvd roundUp_ge roundUp_less)
qed

lemma alignTo_null: "alignTo 0 A = 0"
proof (cases "A = 0")
  case True
  then show ?thesis by (simp add: alignTo_def)
next
  case False
  then have "unat (A - 1) < unat A" by (simp add: unat_minus_one unat_gt_0)
  then have "unat ((A - 1) div A) = 0" by (simp add: unat_div)
  then have "(A - 1) div A = 0" by (simp add: unat_eq_0)
  then show ?thesis by (simp add: alignTo_def)
qed

lemma mapAllocs_null:
  "mapAllocsToRemoteAddrs D As 0 =
     (D @ map (\<lambda>A. (alignAddr (Contents A) (Align A), 0)) As,
      map (\<lambda>A. A\<lparr>RemoteAddr := 0\<rparr>) As, 0)"
  by (induction As arbitrary: D) (simp_all add: alignTo_null Let_def)

lemma word_offset_eq:
  fixes X S Y :: "64 word"
  assumes "unat X = unat S + unat Y"
  shows "X - S = Y"
proof -
  have "unat X < 2 ^ LENGTH(64)" by (rule unsigned_less)
  with assms have "unat S + unat Y < 2 ^ LENGTH(64)" by simp
  then have "unat (S + Y) = unat S + unat Y" by (simp only: unat_add_lem)
  with assms have "S + Y = X" by (simp add: word_unat_eq_iff)
  then show ?thesis by auto
qed

lemma map_offset_eq:
  fixes S :: "64 word"
  shows "map (\<lambda>A. unat (f A)) xs = map ((+) (unat S)) (map (\<lambda>C. unat (g C)) ys) \<Longrightarrow>
         map (\<lambda>A. f A - S) xs = map g ys"
proof (induction xs arbitrary: ys)
  case Nil
  then show ?case by simp
next
  case (Cons x xs)
  then obtain y ys' where ys: "ys = y # ys'" by (cases ys) auto
  with Cons.prems have h: "unat (f x) = unat S + unat (g y)"
    and t: "map (\<lambda>A. unat (f A)) xs = map ((+) (unat S)) (map (\<lambda>C. unat (g C)) ys')"
    by simp_all
  from word_offset_eq [OF h] Cons.IH [OF t] ys show ?case by simp
qed

lemma ranges_disjoint:
  fixes B c r w A :: "64 word"
  assumes "unat c + unat r + unat w < 2 ^ 64"
  shows "\<not> (contains (mkRange B c) A \<and> contains (mkRange (B + c) r) A)"
    and "\<not> (contains (mkRange (B + c) r) A \<and> contains (mkRange (B + c + r) w) A)"
    and "\<not> (contains (mkRange B c) A \<and> contains (mkRange (B + c + r) w) A)"
proof -
  show "\<not> (contains (mkRange B c) A \<and> contains (mkRange (B + c) r) A)"
    by (auto simp add: contains_def mkRange_def)
  show "\<not> (contains (mkRange (B + c) r) A \<and> contains (mkRange (B + c + r) w) A)"
    by (auto simp add: contains_def mkRange_def)
  have lt: "unat B < 2 ^ 64" "unat c < 2 ^ 64" "unat r < 2 ^ 64" "unat w < 2 ^ 64"
    using unsigned_less [of B, where 'a = nat] unsigned_less [of c, where 'a = nat]
      unsigned_less [of r, where 'a = nat] unsigned_less [of w, where 'a = nat] by simp_all
  show "\<not> (contains (mkRange B c) A \<and> contains (mkRange (B + c + r) w) A)"
  proof
    assume h: "contains (mkRange B c) A \<and> contains (mkRange (B + c + r) w) A"
    then have 1: "unat B \<le> unat A" "unat A < unat (B + c)"
      "unat (B + c + r) \<le> unat A" "unat A < unat (B + c + r + w)"
      by (simp_all add: contains_def mkRange_def word_le_nat_alt word_less_nat_alt)
    have bc: "unat (B + c) = unat B + unat c"
      using 1(1,2) lt by (simp add: unat_plus_if' split: if_splits)
    have bcr: "unat (B + c + r) = unat B + unat c + unat r - 2 ^ 64"
      "2 ^ 64 \<le> unat B + unat c + unat r"
      using 1(2,3) bc lt by (simp_all add: unat_plus_if' [of "B + c" r] split: if_splits)
    have "unat (B + c + r + w) \<le> unat (B + c + r) + unat w"
      by (simp add: unat_plus_if')
    with bcr have "unat (B + c + r + w) \<le> unat B + unat c + unat r + unat w - 2 ^ 64"
      by linarith
    with assms 1(1,4) show False by linarith
  qed
qed

section \<open>Properties of registerEHFrames\<close>

lemma registerLoop_None:
  "(registerLoop LA Sz Gs = None) = (\<forall>G \<in> set Gs. \<not> inGroup G LA)"
  by (induction Gs) auto

lemma registerLoop_Some:
  "registerLoop LA Sz Gs = Some Hs \<Longrightarrow>
   \<exists>pre G post. Gs = pre @ G # post \<and> inGroup G LA \<and> (\<forall>H \<in> set pre. \<not> inGroup H LA) \<and>
                Hs = pre @ pushFrame LA Sz G # post"
proof (induction Gs arbitrary: Hs)
  case Nil
  then show ?case by simp
next
  case (Cons G Gs)
  show ?case
  proof (cases "inGroup G LA")
    case True
    with Cons.prems have "Hs = pushFrame LA Sz G # Gs" by simp
    with True show ?thesis by (intro exI [of _ "[]"] exI [of _ G] exI [of _ Gs]) simp
  next
    case False
    with Cons.prems obtain Hs' where h: "registerLoop LA Sz Gs = Some Hs'" "Hs = G # Hs'"
      by auto
    from Cons.IH [OF h(1)] obtain pre G' post where
      "Gs = pre @ G' # post" "inGroup G' LA" "\<forall>H \<in> set pre. \<not> inGroup H LA"
      "Hs' = pre @ pushFrame LA Sz G' # post" by blast
    with False h(2) show ?thesis
      by (intro exI [of _ "G # pre"] exI [of _ G'] exI [of _ post]) simp
  qed
qed

text \<open>
  Claim C7. A call of registerEHFrames with no sticky error pending: if some Unfinalized
  group's code, read-only or read-write range contains the load address, the frame
  (address, size) is appended at the end of the UnfinalizedEHFrames of the most recently
  added such group (no later group contains the address), every other group and every
  other member stays as it was and no error is set; if no Unfinalized group contains the
  address, the sticky error becomes the consistency error and every group is left as it
  was.
\<close>

theorem registerEHFrames_routes_frame:
  assumes "ErrMsg M = []"
  shows "((\<exists>G \<in> set (Unfinalized M). inGroup G LA) \<longrightarrow>
            (\<exists>pre G post. Unfinalized M = pre @ G # post \<and> inGroup G LA \<and>
               (\<forall>H \<in> set post. \<not> inGroup H LA) \<and>
               registerEHFrames LA Sz M =
                 M\<lparr>Unfinalized :=
                     pre @ G\<lparr>UnfinalizedEHFrames :=
                              UnfinalizedEHFrames G @ [\<lparr>FrameAddr = LA, FrameSize = Sz\<rparr>]\<rparr> # post\<rparr> \<and>
               ErrMsg (registerEHFrames LA Sz M) = [])) \<and>
         ((\<forall>G \<in> set (Unfinalized M). \<not> inGroup G LA) \<longrightarrow>
            registerEHFrames LA Sz M =
              M\<lparr>ErrMsg := ''eh-frame does not lie inside unfinalized alloc''\<rparr> \<and>
            Unfinalized (registerEHFrames LA Sz M) = Unfinalized M)"
proof (rule conjI; rule impI)
  assume ex: "\<exists>G \<in> set (Unfinalized M). inGroup G LA"
  then have "registerLoop LA Sz (rev (Unfinalized M)) \<noteq> None"
    by (simp add: registerLoop_None)
  then obtain Hs where hs: "registerLoop LA Sz (rev (Unfinalized M)) = Some Hs" by blast
  from registerLoop_Some [OF hs] obtain pre G post where
    p: "rev (Unfinalized M) = pre @ G # post" "inGroup G LA"
       "\<forall>H \<in> set pre. \<not> inGroup H LA" "Hs = pre @ pushFrame LA Sz G # post" by blast
  from p(1) have u: "Unfinalized M = rev post @ G # rev pre"
    by (metis rev_rev_ident rev_append rev.simps(2) append_assoc append_Cons append_Nil)
  have r: "registerEHFrames LA Sz M =
             M\<lparr>Unfinalized :=
                 rev post @ G\<lparr>UnfinalizedEHFrames :=
                   UnfinalizedEHFrames G @ [\<lparr>FrameAddr = LA, FrameSize = Sz\<rparr>]\<rparr> # rev pre\<rparr>"
    using assms hs p(4) by (simp add: registerEHFrames_def pushFrame_def)
  show "\<exists>pre G post. Unfinalized M = pre @ G # post \<and> inGroup G LA \<and>
               (\<forall>H \<in> set post. \<not> inGroup H LA) \<and>
               registerEHFrames LA Sz M =
                 M\<lparr>Unfinalized :=
                     pre @ G\<lparr>UnfinalizedEHFrames :=
                              UnfinalizedEHFrames G @ [\<lparr>FrameAddr = LA, FrameSize = Sz\<rparr>]\<rparr> # post\<rparr> \<and>
               ErrMsg (registerEHFrames LA Sz M) = []"
    using u p(2) p(3) r assms
    by (intro exI [of _ "rev post"] exI [of _ G] exI [of _ "rev pre"]) simp
next
  assume no: "\<forall>G \<in> set (Unfinalized M). \<not> inGroup G LA"
  then have n: "registerLoop LA Sz (rev (Unfinalized M)) = None"
    by (simp add: registerLoop_None)
  show "registerEHFrames LA Sz M =
          M\<lparr>ErrMsg := ''eh-frame does not lie inside unfinalized alloc''\<rparr> \<and>
        Unfinalized (registerEHFrames LA Sz M) = Unfinalized M"
    using assms n by (simp add: registerEHFrames_def)
qed

theorem registerEHFrames_routes_frame_witness:
  "ErrMsg (exManager\<lparr>Unfinalized := [exGroupA, exGroupB, exGroupA]\<rparr>) = [] \<and>
   inGroup exGroupA 0x10010 \<and> \<not> inGroup exGroupB 0x10010 \<and>
   \<not> inGroup exGroupA 0x30000 \<and> \<not> inGroup exGroupB 0x30000 \<and>
   registerEHFrames 0x10010 8 (exManager\<lparr>Unfinalized := [exGroupA, exGroupB, exGroupA]\<rparr>) =
     exManager\<lparr>Unfinalized :=
       [exGroupA, exGroupB,
        exGroupA\<lparr>UnfinalizedEHFrames := [\<lparr>FrameAddr = 0x10010, FrameSize = 8\<rparr>]\<rparr>]\<rparr> \<and>
   registerEHFrames 0x30000 8 (exManager\<lparr>Unfinalized := [exGroupA, exGroupB, exGroupA]\<rparr>) =
     exManager\<lparr>Unfinalized := [exGroupA, exGroupB, exGroupA],
               ErrMsg := ''eh-frame does not lie inside unfinalized alloc''\<rparr>"
proof -
  let ?M = "exManager\<lparr>Unfinalized := [exGroupA, exGroupB, exGroupA]\<rparr>"
  have h: "ErrMsg ?M = []" by (simp add: exManager_def)
  have ia: "inGroup exGroupA 0x10010" "\<not> inGroup exGroupB 0x10010"
    by (simp_all add: exGroupA_def exGroupB_def reservedGroup_def emptyGroup_def mkRange_def
        alignTo_def inGroup_def contains_def Let_def)
  have ib: "\<not> inGroup exGroupA 0x30000" "\<not> inGroup exGroupB 0x30000"
    by (simp_all add: exGroupA_def exGroupB_def reservedGroup_def emptyGroup_def mkRange_def
        alignTo_def inGroup_def contains_def Let_def)
  have fa: "UnfinalizedEHFrames exGroupA = []"
    by (simp add: exGroupA_def reservedGroup_def emptyGroup_def Let_def)
  have a: "\<exists>G \<in> set (Unfinalized ?M). inGroup G 0x10010" using ia by simp
  have b: "\<forall>G \<in> set (Unfinalized ?M). \<not> inGroup G 0x30000" using ib by simp
  from registerEHFrames_routes_frame [OF h, of "0x10010" 8] a
  obtain pre G post where
    s: "Unfinalized ?M = pre @ G # post" "inGroup G 0x10010"
       "\<forall>H \<in> set post. \<not> inGroup H 0x10010"
    and r: "registerEHFrames 0x10010 8 ?M =
       ?M\<lparr>Unfinalized :=
           pre @ G\<lparr>UnfinalizedEHFrames :=
                    UnfinalizedEHFrames G @ [\<lparr>FrameAddr = 0x10010, FrameSize = 8\<rparr>]\<rparr> # post\<rparr>"
    by blast
  from s(1) have l: "[exGroupA, exGroupB, exGroupA] = pre @ G # post" by simp
  have "post = []"
  proof (rule ccontr)
    assume "post \<noteq> []"
    then have "last post \<in> set post" by simp
    moreover from l \<open>post \<noteq> []\<close> have "last post = exGroupA"
      by (metis last.simps last_appendR list.distinct(1))
    ultimately show False using s(3) ia(1) by auto
  qed
  with l have pg: "pre = [exGroupA, exGroupB]" "G = exGroupA"
    by (auto simp add: append_eq_Cons_conv Cons_eq_append_conv)
  from r pg \<open>post = []\<close> fa have c: "registerEHFrames 0x10010 8 ?M =
     exManager\<lparr>Unfinalized :=
       [exGroupA, exGroupB,
        exGroupA\<lparr>UnfinalizedEHFrames := [\<lparr>FrameAddr = 0x10010, FrameSize = 8\<rparr>]\<rparr>]\<rparr>"
    by simp
  from registerEHFrames_routes_frame [OF h, of "0x30000" 8] b
  have d: "registerEHFrames 0x30000 8 ?M =
             ?M\<lparr>ErrMsg := ''eh-frame does not lie inside unfinalized alloc''\<rparr>" by blast
  from h ia ib c d show ?thesis by simp
qed

section \<open>Properties of allocateCodeSection and allocateDataSection\<close>

text \<open>
  Claim C10. With a non-empty Unmapped sequence, allocateCodeSection and
  allocateDataSection append the new Alloc to the matching sequence of the last Unmapped
  group and return the base of its buffer rounded up to the requested alignment; with an
  empty Unmapped sequence the access to its last element has no defined result (the
  fault of the model). Rounded up means: for a non-zero alignment, and when the buffer
  does not end beyond the address space, the returned pointer is a multiple of the
  alignment, not below the base and less than the alignment above it.
\<close>

theorem allocateSection_needs_unmapped_group:
  "(Unmapped M \<noteq> [] \<longrightarrow>
      allocateCodeSection Buf Sz Alignment M =
        Inr (alignAddr Buf Alignment,
             M\<lparr>Unmapped := butlast (Unmapped M) @
                  [(last (Unmapped M))\<lparr>CodeAllocs :=
                     CodeAllocs (last (Unmapped M)) @ [newAlloc Buf Sz Alignment]\<rparr>]\<rparr>) \<and>
      allocateDataSection Buf Sz Alignment True M =
        Inr (alignAddr Buf Alignment,
             M\<lparr>Unmapped := butlast (Unmapped M) @
                  [(last (Unmapped M))\<lparr>RODataAllocs :=
                     RODataAllocs (last (Unmapped M)) @ [newAlloc Buf Sz Alignment]\<rparr>]\<rparr>) \<and>
      allocateDataSection Buf Sz Alignment False M =
        Inr (alignAddr Buf Alignment,
             M\<lparr>Unmapped := butlast (Unmapped M) @
                  [(last (Unmapped M))\<lparr>RWDataAllocs :=
                     RWDataAllocs (last (Unmapped M)) @ [newAlloc Buf Sz Alignment]\<rparr>]\<rparr>)) \<and>
   (Unmapped M = [] \<longrightarrow>
      allocateCodeSection Buf Sz Alignment M = Inl BackOfEmptyVector \<and>
      allocateDataSection Buf Sz Alignment IsReadOnly M = Inl BackOfEmptyVector) \<and>
   (Alignment \<noteq> 0 \<and> unat Buf + unat Alignment - 1 < 2 ^ 64 \<longrightarrow>
      unat Alignment dvd unat (alignAddr Buf Alignment) \<and>
      unat Buf \<le> unat (alignAddr Buf Alignment) \<and>
      unat (alignAddr Buf Alignment) < unat Buf + unat Alignment)"
proof (intro conjI impI)
  assume h: "Alignment \<noteq> 0 \<and> unat Buf + unat Alignment - 1 < 2 ^ 64"
  have u: "unat (ucast Alignment :: 64 word) = unat Alignment" by (rule unat_ucast_align)
  with h have "0 < unat (ucast Alignment :: 64 word)" by (simp add: unat_gt_0)
  then have nz: "(ucast Alignment :: 64 word) \<noteq> 0" by (simp add: unat_gt_0)
  from h u have "unat Buf + unat (ucast Alignment :: 64 word) - 1 < 2 ^ 64" by simp
  from alignTo_rounds_up [OF nz this] u
  show "unat Alignment dvd unat (alignAddr Buf Alignment)"
    and "unat Buf \<le> unat (alignAddr Buf Alignment)"
    and "unat (alignAddr Buf Alignment) < unat Buf + unat Alignment"
    by (simp_all add: alignAddr_def)
qed (simp_all add: allocateCodeSection_def allocateDataSection_def newAlloc_def Let_def)

theorem allocateSection_needs_unmapped_group_witness:
  "Unmapped (exManager\<lparr>Unmapped := [exGroupA]\<rparr>) \<noteq> [] \<and>
   Unmapped exManager = [] \<and>
   allocateCodeSection 0x7001 10 16 (exManager\<lparr>Unmapped := [exGroupA]\<rparr>) =
     Inr (0x7010, exManager\<lparr>Unmapped := [exGroupA\<lparr>CodeAllocs := [newAlloc 0x7001 10 16]\<rparr>]\<rparr>) \<and>
   allocateCodeSection 0x7001 10 16 exManager = Inl BackOfEmptyVector \<and>
   unat (16 :: 32 word) dvd unat (alignAddr 0x7001 16)"
proof -
  let ?M = "exManager\<lparr>Unmapped := [exGroupA]\<rparr>"
  have h: "Unmapped ?M \<noteq> []" "Unmapped exManager = []" by (simp_all add: exManager_def)
  have a: "alignAddr 0x7001 16 = 0x7010" by (simp add: alignAddr_def alignTo_def)
  have c: "CodeAllocs exGroupA = []"
    by (simp add: exGroupA_def reservedGroup_def emptyGroup_def Let_def)
  have n: "(16 :: 32 word) \<noteq> 0 \<and> unat (0x7001 :: 64 word) + unat (16 :: 32 word) - 1 < 2 ^ 64"
    by simp
  from allocateSection_needs_unmapped_group [of ?M "0x7001" 10 16] h(1) a c
  have 1: "allocateCodeSection 0x7001 10 16 ?M =
     Inr (0x7010, exManager\<lparr>Unmapped := [exGroupA\<lparr>CodeAllocs := [newAlloc 0x7001 10 16]\<rparr>]\<rparr>)"
    by (simp add: exManager_def)
  from allocateSection_needs_unmapped_group [of exManager "0x7001" 10 16] h(2)
  have 2: "allocateCodeSection 0x7001 10 16 exManager = Inl BackOfEmptyVector" by simp
  from allocateSection_needs_unmapped_group [of exManager "0x7001" 10 16] n
  have 3: "unat (16 :: 32 word) dvd unat (alignAddr 0x7001 16)" by blast
  from h 1 2 3 show ?thesis by simp
qed

section \<open>Properties of reserveAllocationSpace: alignment checks\<close>

text \<open>
  Claim C6 as stated, refuted. The claim says that every call with an invalid alignment
  ends with the sticky error naming the offending class. With an error already pending the
  call returns at once: the code alignment 3 is not a power of two, and the sticky error
  after the call is still the earlier one, which names no class.
\<close>

theorem reserveAllocationSpace_keeps_pending_error:
  "\<not> isPowerOf2_32 3 \<and>
   ErrMsg (reserveAllocationSpace okEPC 10 3 4 4 0 1
             (exManager\<lparr>ErrMsg := ''eh-frame does not lie inside unfinalized alloc''\<rparr>)) =
     ''eh-frame does not lie inside unfinalized alloc''"
  by (simp add: reserveAllocationSpace_def isPowerOf2_32_def exManager_def)

text \<open>
  Claim C6, amended. For every call of reserveAllocationSpace in which one of the three
  alignments is not a power of two or exceeds the page size: if no error was pending, the
  sticky error is set to the message of the first offending class in the order code,
  ro-data, rw-data, and nothing else changes; if an error was pending, the manager is left
  as it was. In both cases the call ends with the sticky error set, no remote call is
  issued and no group is pushed.
\<close>

theorem reserveAllocationSpace_rejects_bad_alignment:
  assumes "\<not> isPowerOf2_32 CodeAlign \<or> CodeAlign > getPageSize EPC \<or>
           \<not> isPowerOf2_32 RODataAlign \<or> RODataAlign > getPageSize EPC \<or>
           \<not> isPowerOf2_32 RWDataAlign \<or> RWDataAlign > getPageSize EPC"
  shows "(ErrMsg M = [] \<longrightarrow>
            reserveAllocationSpace EPC CodeSize CodeAlign RODataSize RODataAlign RWDataSize RWDataAlign M =
              M\<lparr>ErrMsg :=
                 (if \<not> isPowerOf2_32 CodeAlign \<or> CodeAlign > getPageSize EPC
                  then ''Invalid code alignment in reserveAllocationSpace''
                  else if \<not> isPowerOf2_32 RODataAlign \<or> RODataAlign > getPageSize EPC
                  then ''Invalid ro-data alignment in reserveAllocationSpace''
                  else ''Invalid rw-data alignment in reserveAllocationSpace'')\<rparr>) \<and>
         (ErrMsg M \<noteq> [] \<longrightarrow>
            reserveAllocationSpace EPC CodeSize CodeAlign RODataSize RODataAlign RWDataSize RWDataAlign M = M) \<and>
         ErrMsg (reserveAllocationSpace EPC CodeSize CodeAlign RODataSize RODataAlign RWDataSize RWDataAlign M) \<noteq> [] \<and>
         Calls (reserveAllocationSpace EPC CodeSize CodeAlign RODataSize RODataAlign RWDataSize RWDataAlign M) = Calls M \<and>
         Unmapped (reserveAllocationSpace EPC CodeSize CodeAlign RODataSize RODataAlign RWDataSize RWDataAlign M) = Unmapped M"
  using assms by (auto simp add: reserveAllocationSpace_def)

theorem reserveAllocationSpace_rejects_bad_alignment_witness:
  "\<not> isPowerOf2_32 3 \<and>
   reserveAllocationSpace okEPC 10 4 4 3 0 8192 exManager =
     exManager\<lparr>ErrMsg := ''Invalid ro-data alignment in reserveAllocationSpace''\<rparr> \<and>
   reserveAllocationSpace okEPC 10 4 4 3 0 8192 (exManager\<lparr>ErrMsg := ''earlier''\<rparr>) =
     exManager\<lparr>ErrMsg := ''earlier''\<rparr> \<and>
   Calls (reserveAllocationSpace okEPC 10 4 4 3 0 8192 exManager) = []"
proof -
  have h: "\<not> isPowerOf2_32 4 \<or> 4 > getPageSize okEPC \<or>
    \<not> isPowerOf2_32 3 \<or> 3 > getPageSize okEPC \<or>
    \<not> isPowerOf2_32 8192 \<or> 8192 > getPageSize okEPC"
    by (simp add: isPowerOf2_32_def okEPC_def)
  have p4: "isPowerOf2_32 4" "\<not> isPowerOf2_32 3" "\<not> 4 > getPageSize okEPC"
    by (simp_all add: isPowerOf2_32_def okEPC_def)
  have e: "ErrMsg exManager = []" "ErrMsg (exManager\<lparr>ErrMsg := ''earlier''\<rparr>) \<noteq> []"
    "Calls exManager = []"
    by (simp_all add: exManager_def)
  from reserveAllocationSpace_rejects_bad_alignment [OF h, of exManager 10 4 0] e p4
  have a: "reserveAllocationSpace okEPC 10 4 4 3 0 8192 exManager =
     exManager\<lparr>ErrMsg := ''Invalid ro-data alignment in reserveAllocationSpace''\<rparr>"
     "Calls (reserveAllocationSpace okEPC 10 4 4 3 0 8192 exManager) = []"
    by simp_all
  from reserveAllocationSpace_rejects_bad_alignment [OF h, of "exManager\<lparr>ErrMsg := ''earlier''\<rparr>" 10 4 0] e
  have b: "reserveAllocationSpace okEPC 10 4 4 3 0 8192 (exManager\<lparr>ErrMsg := ''earlier''\<rparr>) =
     exManager\<lparr>ErrMsg := ''earlier''\<rparr>"
    by simp
  from p4(2) a b show ?thesis by blast
qed

section \<open>Properties of reserveAllocationSpace: the reserved ranges\<close>

text \<open>
  Claim C5 as stated, refuted. A reservation of one page of code, \<open>2^64 - 4096\<close> bytes
  of read-only data and one page of read-write data succeeds: the sum of the three
  page-rounded sizes wraps, so 4096 bytes are requested from the executor, and the code
  range and the read-write range are the same page: both contain the base address.
\<close>

theorem reserveAllocationSpace_ranges_overlap_on_wrap:
  "ErrMsg exWrapped = [] \<and>
   Calls exWrapped = [WrapperCall 0x20 (ReserveArgs 0x10 0x1000)] \<and>
   RemoteCode (last (Unmapped exWrapped)) = \<lparr>Start = 0x10000, End = 0x11000\<rparr> \<and>
   RemoteROData (last (Unmapped exWrapped)) = \<lparr>Start = 0x11000, End = 0x10000\<rparr> \<and>
   RemoteRWData (last (Unmapped exWrapped)) = \<lparr>Start = 0x10000, End = 0x11000\<rparr> \<and>
   contains (RemoteCode (last (Unmapped exWrapped))) 0x10000 \<and>
   contains (RemoteRWData (last (Unmapped exWrapped))) 0x10000"
  by (simp add: exWrapped_def reserveAllocationSpace_def okEPC_def exManager_def exSAs_def
      isPowerOf2_32_def alignTo_def reservedGroup_def emptyGroup_def mkRange_def contains_def
      Let_def)

text \<open>
  Claim C5, amended. For every successful reserveAllocationSpace in which the sum of the
  three page-rounded class sizes stays below \<open>2^64\<close>: the number of bytes requested
  from the executor is that sum; the new group's ranges are, in this order, code from
  the returned base, read-only data from the end of code, read-write data from the end
  of read-only data, each of the length of that class's page-rounded size (ends and
  lengths in 64-bit arithmetic); and no address lies in two of the ranges. Here \<open>c\<close>,
  \<open>r\<close> and \<open>w\<close> are the page-rounded sizes as the code computes them.
\<close>

theorem reserveAllocationSpace_partitions_base:
  assumes "ErrMsg M = []"
    and "isPowerOf2_32 CodeAlign \<and> CodeAlign \<le> getPageSize EPC"
    and "isPowerOf2_32 RODataAlign \<and> RODataAlign \<le> getPageSize EPC"
    and "isPowerOf2_32 RWDataAlign \<and> RWDataAlign \<le> getPageSize EPC"
    and "c = alignTo CodeSize (ucast (getPageSize EPC))"
    and "r = alignTo RODataSize (ucast (getPageSize EPC))"
    and "w = alignTo RWDataSize (ucast (getPageSize EPC))"
    and "respond EPC (Calls M)
           (WrapperCall (Reserve (SAs M)) (ReserveArgs (Instance (SAs M)) (c + r + w))) =
         Returned Base"
    and "G = reservedGroup (getPageSize EPC) Base CodeSize RODataSize RWDataSize"
    and "unat c + unat r + unat w < 2 ^ 64"
  shows "reserveAllocationSpace EPC CodeSize CodeAlign RODataSize RODataAlign RWDataSize RWDataAlign M =
           M\<lparr>Unmapped := Unmapped M @ [G],
             Calls := Calls M @
               [WrapperCall (Reserve (SAs M)) (ReserveArgs (Instance (SAs M)) (c + r + w))]\<rparr> \<and>
         unat (c + r + w) = unat c + unat r + unat w \<and>
         RemoteCode G = \<lparr>Start = Base, End = Base + c\<rparr> \<and>
         RemoteROData G = \<lparr>Start = Base + c, End = Base + c + r\<rparr> \<and>
         RemoteRWData G = \<lparr>Start = Base + c + r, End = Base + c + r + w\<rparr> \<and>
         End (RemoteCode G) - Start (RemoteCode G) = c \<and>
         End (RemoteROData G) - Start (RemoteROData G) = r \<and>
         End (RemoteRWData G) - Start (RemoteRWData G) = w \<and>
         \<not> (contains (RemoteCode G) A \<and> contains (RemoteROData G) A) \<and>
         \<not> (contains (RemoteROData G) A \<and> contains (RemoteRWData G) A) \<and>
         \<not> (contains (RemoteCode G) A \<and> contains (RemoteRWData G) A)"
proof -
  have g: "RemoteCode G = mkRange Base c" "RemoteROData G = mkRange (Base + c) r"
    "RemoteRWData G = mkRange (Base + c + r) w"
    using assms(5-7,9) by (simp_all add: reservedGroup_def emptyGroup_def mkRange_def Let_def)
  have 1: "reserveAllocationSpace EPC CodeSize CodeAlign RODataSize RODataAlign RWDataSize RWDataAlign M =
           M\<lparr>Unmapped := Unmapped M @ [G],
             Calls := Calls M @
               [WrapperCall (Reserve (SAs M)) (ReserveArgs (Instance (SAs M)) (c + r + w))]\<rparr>"
    using assms(1-9) by (simp add: reserveAllocationSpace_def Let_def not_less)
  have "unat c + unat r < 2 ^ LENGTH(64)" using assms(10) by simp
  then have cr: "unat (c + r) = unat c + unat r" by (simp only: unat_add_lem)
  then have "unat (c + r) + unat w < 2 ^ LENGTH(64)" using assms(10) by simp
  then have "unat (c + r + w) = unat (c + r) + unat w" by (simp only: unat_add_lem)
  with cr have 2: "unat (c + r + w) = unat c + unat r + unat w" by simp
  note d = ranges_disjoint [OF assms(10), of Base A]
  from 1 2 g d show ?thesis by (simp add: mkRange_def)
qed

theorem reserveAllocationSpace_partitions_base_witness:
  "reserveAllocationSpace okEPC 10 1 4 4 0 1 exManager =
     exManager\<lparr>Unmapped := [exGroupA],
               Calls := [WrapperCall 0x20 (ReserveArgs 0x10 0x2000)]\<rparr> \<and>
   RemoteCode exGroupA = \<lparr>Start = 0x10000, End = 0x11000\<rparr> \<and>
   RemoteROData exGroupA = \<lparr>Start = 0x11000, End = 0x12000\<rparr> \<and>
   RemoteRWData exGroupA = \<lparr>Start = 0x12000, End = 0x12000\<rparr>"
proof -
  have h1: "ErrMsg exManager = []" by (simp add: exManager_def)
  have h2: "isPowerOf2_32 1 \<and> 1 \<le> getPageSize okEPC" "isPowerOf2_32 4 \<and> 4 \<le> getPageSize okEPC"
    by (simp_all add: isPowerOf2_32_def okEPC_def)
  have c: "(0x1000 :: 64 word) = alignTo 10 (ucast (getPageSize okEPC))"
    "(0x1000 :: 64 word) = alignTo 4 (ucast (getPageSize okEPC))"
    "(0 :: 64 word) = alignTo 0 (ucast (getPageSize okEPC))"
    by (simp_all add: alignTo_def okEPC_def)
  have r: "respond okEPC (Calls exManager)
           (WrapperCall (Reserve (SAs exManager))
              (ReserveArgs (Instance (SAs exManager)) (0x1000 + 0x1000 + 0))) = Returned 0x10000"
    by (simp add: okEPC_def)
  have g: "exGroupA = reservedGroup (getPageSize okEPC) 0x10000 10 4 0"
    by (simp add: exGroupA_def okEPC_def)
  have b: "unat (0x1000 :: 64 word) + unat (0x1000 :: 64 word) + unat (0 :: 64 word) < 2 ^ 64"
    by simp
  from reserveAllocationSpace_partitions_base [OF h1 h2(1) h2(2) h2(1) c r g b]
  show ?thesis by (simp add: exManager_def exSAs_def)
qed

section \<open>Properties of mapAllocsToRemoteAddrs\<close>

text \<open>
  Claim C9 as stated, refuted. The claim says that for a non-null range start the running
  address advances by each Alloc's size. The range starts at the last page of the address
  space and the first section fills that page: the running address wraps to null, the
  second section is assigned the null address and the running address is not advanced by
  its 5 bytes.
\<close>

theorem mapAllocs_wraps_to_null:
  "(0xFFFFFFFFFFFFF000 :: 64 word) \<noteq> 0 \<and>
   map RemoteAddr (fst (snd (mapAllocsToRemoteAddrs [] exTopAllocs 0xFFFFFFFFFFFFF000))) =
     [0xFFFFFFFFFFFFF000, 0] \<and>
   snd (snd (mapAllocsToRemoteAddrs [] exTopAllocs 0xFFFFFFFFFFFFF000)) = 0"
  by (simp add: exTopAllocs_def newAlloc_def alignTo_def Let_def)

text \<open>
  Claim C9, amended. During address mapping, if the range start is null, every Alloc of
  the sequence is assigned the null address and the running address stays null. For a
  non-null range start, alignments that are powers of two and a layout that ends below
  \<open>2^64\<close>, every Alloc is assigned the running address rounded up to its alignment and
  the running address advances by its size (the addresses are those of the unbounded
  layout). In every case one step of the loop assigns the rounded running address, and
  advances by the Alloc's size exactly when that rounded address is not null.
\<close>

theorem mapAllocs_null_and_advance:
  "((\<forall>A \<in> set As. Align A \<noteq> 0) \<longrightarrow>
      mapAllocsToRemoteAddrs D As 0 =
        (D @ map (\<lambda>A. (alignAddr (Contents A) (Align A), 0)) As,
         map (\<lambda>A. A\<lparr>RemoteAddr := 0\<rparr>) As, 0)) \<and>
   (N \<noteq> 0 \<and> (\<forall>A \<in> set As. isPowerOf2_32 (Align A)) \<and> specLayoutEnd (unat N) As < 2 ^ 64 \<longrightarrow>
      map (\<lambda>A. unat (RemoteAddr A)) (fst (snd (mapAllocsToRemoteAddrs D As N))) =
        specOffsets (unat N) As \<and>
      unat (snd (snd (mapAllocsToRemoteAddrs D As N))) = specLayoutEnd (unat N) As) \<and>
   (alignTo N (ucast (Align A)) \<noteq> 0 \<longrightarrow>
      fst (snd (mapAllocsToRemoteAddrs D (A # As) N)) =
        A\<lparr>RemoteAddr := alignTo N (ucast (Align A))\<rparr> #
        fst (snd (mapAllocsToRemoteAddrs
          (D @ [(alignAddr (Contents A) (Align A), alignTo N (ucast (Align A)))]) As
          (alignTo N (ucast (Align A)) + Size A)))) \<and>
   (alignTo N (ucast (Align A)) = 0 \<longrightarrow>
      fst (snd (mapAllocsToRemoteAddrs D (A # As) N)) =
        A\<lparr>RemoteAddr := 0\<rparr> #
        fst (snd (mapAllocsToRemoteAddrs
          (D @ [(alignAddr (Contents A) (Align A), 0)]) As 0)))"
proof (intro conjI impI)
  show "mapAllocsToRemoteAddrs D As 0 =
        (D @ map (\<lambda>A. (alignAddr (Contents A) (Align A), 0)) As,
         map (\<lambda>A. A\<lparr>RemoteAddr := 0\<rparr>) As, 0)" by (rule mapAllocs_null)
next
  assume h: "N \<noteq> 0 \<and> (\<forall>A \<in> set As. isPowerOf2_32 (Align A)) \<and> specLayoutEnd (unat N) As < 2 ^ 64"
  then have "map (\<lambda>A. unat (RemoteAddr A)) (fst (snd (mapAllocsToRemoteAddrs D As N))) =
        specOffsets (unat N) As \<and>
      unat (snd (snd (mapAllocsToRemoteAddrs D As N))) = specLayoutEnd (unat N) As"
    by (intro mapAllocs_spec) simp_all
  then show "map (\<lambda>A. unat (RemoteAddr A)) (fst (snd (mapAllocsToRemoteAddrs D As N))) =
        specOffsets (unat N) As"
    and "unat (snd (snd (mapAllocsToRemoteAddrs D As N))) = specLayoutEnd (unat N) As"
    by simp_all
next
  assume "alignTo N (ucast (Align A)) \<noteq> 0"
  then show "fst (snd (mapAllocsToRemoteAddrs D (A # As) N)) =
        A\<lparr>RemoteAddr := alignTo N (ucast (Align A))\<rparr> #
        fst (snd (mapAllocsToRemoteAddrs
          (D @ [(alignAddr (Contents A) (Align A), alignTo N (ucast (Align A)))]) As
          (alignTo N (ucast (Align A)) + Size A)))"
    by (simp add: mapAllocs_Cons del: mapAllocsToRemoteAddrs.simps)
next
  assume "alignTo N (ucast (Align A)) = 0"
  then show "fst (snd (mapAllocsToRemoteAddrs D (A # As) N)) =
        A\<lparr>RemoteAddr := 0\<rparr> #
        fst (snd (mapAllocsToRemoteAddrs
          (D @ [(alignAddr (Contents A) (Align A), 0)]) As 0))"
    by (simp add: mapAllocs_Cons del: mapAllocsToRemoteAddrs.simps)
qed

theorem mapAllocs_null_and_advance_witness:
  "map RemoteAddr (fst (snd (mapAllocsToRemoteAddrs [] exAllocs 0))) = [0, 0] \<and>
   snd (snd (mapAllocsToRemoteAddrs [] exAllocs 0)) = 0 \<and>
   map (\<lambda>A. unat (RemoteAddr A)) (fst (snd (mapAllocsToRemoteAddrs [] exAllocs 0x10000))) =
     [65536, 65548] \<and>
   unat (snd (snd (mapAllocsToRemoteAddrs [] exAllocs 0x10000))) = 65552 \<and>
   map RemoteAddr (fst (snd (mapAllocsToRemoteAddrs []
     (newAlloc 0x7000 10 1 # [newAlloc 0x8000 4 4]) 0x10000))) = [0x10000, 0x1000C] \<and>
   map RemoteAddr (fst (snd (mapAllocsToRemoteAddrs [(0x7000, 0xFFFFFFFFFFFFF000)]
     (newAlloc 0x9000 5 1 # []) 0))) = [0]"
proof -
  have a0: "\<forall>A \<in> set exAllocs. Align A \<noteq> 0" by (simp add: exAllocs_def newAlloc_def)
  have p: "(0x10000 :: 64 word) \<noteq> 0 \<and> (\<forall>A \<in> set exAllocs. isPowerOf2_32 (Align A)) \<and>
           specLayoutEnd (unat (0x10000 :: 64 word)) exAllocs < 2 ^ 64"
    by (simp add: exAllocs_def newAlloc_def isPowerOf2_32_def roundUp_def)
  have s: "specOffsets (unat (0x10000 :: 64 word)) exAllocs = [65536, 65548]"
    "specLayoutEnd (unat (0x10000 :: 64 word)) exAllocs = 65552"
    by (simp_all add: exAllocs_def newAlloc_def roundUp_def)
  have n1: "alignTo 0x10000 (ucast (Align (newAlloc 0x7000 10 1))) \<noteq> 0"
    by (simp add: newAlloc_def alignTo_def)
  have z1: "alignTo 0 (ucast (Align (newAlloc 0x9000 5 1))) = 0"
    by (simp add: newAlloc_def alignTo_def)
  note w1 = mapAllocs_null_and_advance [of exAllocs "[]" "0x10000" "newAlloc 0x7000 10 1"]
  from w1 a0 have "mapAllocsToRemoteAddrs [] exAllocs 0 =
        ([] @ map (\<lambda>A. (alignAddr (Contents A) (Align A), 0)) exAllocs,
         map (\<lambda>A. A\<lparr>RemoteAddr := 0\<rparr>) exAllocs, 0)" by blast
  then have c1: "map RemoteAddr (fst (snd (mapAllocsToRemoteAddrs [] exAllocs 0))) = [0, 0]"
    "snd (snd (mapAllocsToRemoteAddrs [] exAllocs 0)) = 0"
    by (simp_all add: exAllocs_def)
  from w1 p s have c2:
    "map (\<lambda>A. unat (RemoteAddr A)) (fst (snd (mapAllocsToRemoteAddrs [] exAllocs 0x10000))) =
       [65536, 65548]"
    "unat (snd (snd (mapAllocsToRemoteAddrs [] exAllocs 0x10000))) = 65552"
    by simp_all
  from mapAllocs_null_and_advance [of "[newAlloc 0x8000 4 4]" "[]" "0x10000" "newAlloc 0x7000 10 1"] n1
  have "fst (snd (mapAllocsToRemoteAddrs [] (newAlloc 0x7000 10 1 # [newAlloc 0x8000 4 4]) 0x10000)) =
        (newAlloc 0x7000 10 1)\<lparr>RemoteAddr := alignTo 0x10000 (ucast (Align (newAlloc 0x7000 10 1)))\<rparr> #
        fst (snd (mapAllocsToRemoteAddrs
          ([] @ [(alignAddr (Contents (newAlloc 0x7000 10 1)) (Align (newAlloc 0x7000 10 1)),
                 alignTo 0x10000 (ucast (Align (newAlloc 0x7000 10 1))))]) [newAlloc 0x8000 4 4]
          (alignTo 0x10000 (ucast (Align (newAlloc 0x7000 10 1))) + Size (newAlloc 0x7000 10 1))))"
    by blast
  then have c3: "map RemoteAddr (fst (snd (mapAllocsToRemoteAddrs []
       (newAlloc 0x7000 10 1 # [newAlloc 0x8000 4 4]) 0x10000))) = [0x10000, 0x1000C]"
    by (simp add: newAlloc_def alignTo_def Let_def)
  from mapAllocs_null_and_advance [of "[]" "[(0x7000, 0xFFFFFFFFFFFFF000)]" "0" "newAlloc 0x9000 5 1"] z1
  have "fst (snd (mapAllocsToRemoteAddrs [(0x7000, 0xFFFFFFFFFFFFF000)]
          (newAlloc 0x9000 5 1 # []) 0)) =
        (newAlloc 0x9000 5 1)\<lparr>RemoteAddr := 0\<rparr> #
        fst (snd (mapAllocsToRemoteAddrs
          ([(0x7000, 0xFFFFFFFFFFFFF000)] @
           [(alignAddr (Contents (newAlloc 0x9000 5 1)) (Align (newAlloc 0x9000 5 1)), 0)]) [] 0))"
    by blast
  then have c4: "map RemoteAddr (fst (snd (mapAllocsToRemoteAddrs [(0x7000, 0xFFFFFFFFFFFFF000)]
       (newAlloc 0x9000 5 1 # []) 0))) = [0]"
    by (simp add: newAlloc_def)
  from c1 c2 c3 c4 show ?thesis by simp
qed

section \<open>The layout of notifyObjectLoaded against the layout of finalizeMemory\<close>

text \<open>
  Claim C4 as stated, refuted. For a class whose range start is null, notifyObjectLoaded
  assigns both sections the null address (offset 0 from the range start), while
  finalizeMemory places the second section at offset 12 of the aggregate buffer.
\<close>

theorem notify_offsets_differ_for_null_start:
  "map (\<lambda>A. RemoteAddr A - 0) (fst (snd (mapAllocsToRemoteAddrs [] exAllocs 0))) = [0, 0] \<and>
   map Dst (ContentCopies (makeSegment {MF_READ}
     \<lparr>Start = 0, End = 0\<rparr> (fst (snd (mapAllocsToRemoteAddrs [] exAllocs 0))))) = [0, 12]"
  by (simp add: exAllocs_def newAlloc_def mapAllocs_null makeSegment_def alignTo_def Let_def)

text \<open>
  Claim C4, amended. For every class of an AllocGroup whose range start is not null and
  is a multiple of every Alloc's alignment, with alignments that are powers of two and a
  layout that ends below \<open>2^64\<close> from the range start: the offset from the range start
  of the remote address assigned to each section during notifyObjectLoaded is the offset
  at which finalizeMemory places that section's bytes in the aggregate buffer, and the
  final running address is that far from the range start as the aggregate content is
  long. The aggregate segment size equals the final running offset of the copy loop.
\<close>

theorem notify_offsets_match_finalize:
  assumes "S \<noteq> 0"
    and "\<forall>A \<in> set As. isPowerOf2_32 (Align A) \<and> unat (Align A) dvd unat S"
    and "unat S + specLayoutEnd 0 As < 2 ^ 64"
  shows "map (\<lambda>A. RemoteAddr A - S) (fst (snd (mapAllocsToRemoteAddrs D As S))) =
           map Dst (ContentCopies (makeSegment P R (fst (snd (mapAllocsToRemoteAddrs D As S))))) \<and>
         snd (snd (mapAllocsToRemoteAddrs D As S)) - S =
           ContentSize (makeSegment P R (fst (snd (mapAllocsToRemoteAddrs D As S)))) \<and>
         SegSize (makeSegment P R (fst (snd (mapAllocsToRemoteAddrs D As S)))) =
           ContentSize (makeSegment P R (fst (snd (mapAllocsToRemoteAddrs D As S))))"
proof -
  let ?As' = "fst (snd (mapAllocsToRemoteAddrs D As S))"
  have p: "\<forall>A \<in> set As. isPowerOf2_32 (Align A)" using assms(2) by simp
  have d: "\<forall>A \<in> set As. 0 < unat (Align A) \<and> unat (Align A) dvd unat S"
    using assms(2) by (simp add: isPowerOf2_32_pos)
  from spec_shift [OF d, of 0]
  have sh: "specOffsets (unat S) As = map ((+) (unat S)) (specOffsets 0 As)"
           "specLayoutEnd (unat S) As = unat S + specLayoutEnd 0 As" by simp_all
  have b: "specLayoutEnd (unat S) As < 2 ^ 64" using sh(2) assms(3) by simp
  have b0: "specLayoutEnd (unat (0 :: 64 word)) As < 2 ^ 64" using assms(3) by simp
  from mapAllocs_spec [OF p b assms(1), of D]
  have m: "map (\<lambda>A. unat (RemoteAddr A)) ?As' = specOffsets (unat S) As"
          "unat (snd (snd (mapAllocsToRemoteAddrs D As S))) = specLayoutEnd (unat S) As"
    by simp_all
  from copyLoop_spec [OF p b0]
  have c: "map (\<lambda>C. unat (Dst C)) (fst (copyLoop 0 As)) = specOffsets 0 As"
          "unat (snd (copyLoop 0 As)) = specLayoutEnd 0 As" by simp_all
  have seg: "ContentCopies (makeSegment P R ?As') = fst (copyLoop 0 As)"
            "ContentSize (makeSegment P R ?As') = snd (copyLoop 0 As)"
            "SegSize (makeSegment P R ?As') = snd (copyLoop 0 As)"
    by (simp_all add: makeSegment_def case_prod_beta copyLoop_mapped segSizeLoop_copyLoop)
  have "map (\<lambda>A. unat (RemoteAddr A)) ?As' =
          map ((+) (unat S)) (map (\<lambda>C. unat (Dst C)) (fst (copyLoop 0 As)))"
    using m(1) sh(1) c(1) by simp
  then have 1: "map (\<lambda>A. RemoteAddr A - S) ?As' = map Dst (fst (copyLoop 0 As))"
    by (rule map_offset_eq)
  have "unat (snd (snd (mapAllocsToRemoteAddrs D As S))) = unat S + unat (snd (copyLoop 0 As))"
    using m(2) sh(2) c(2) by simp
  then have 2: "snd (snd (mapAllocsToRemoteAddrs D As S)) - S = snd (copyLoop 0 As)"
    by (rule word_offset_eq)
  from 1 2 seg show ?thesis by simp
qed

theorem notify_offsets_match_finalize_witness:
  "map (\<lambda>A. RemoteAddr A - 0x10000) (fst (snd (mapAllocsToRemoteAddrs [] exAllocs 0x10000))) =
     [0, 12] \<and>
   map Dst (ContentCopies (makeSegment {MF_READ} \<lparr>Start = 0x10000, End = 0x11000\<rparr>
     (fst (snd (mapAllocsToRemoteAddrs [] exAllocs 0x10000))))) = [0, 12] \<and>
   ContentSize (makeSegment {MF_READ} \<lparr>Start = 0x10000, End = 0x11000\<rparr>
     (fst (snd (mapAllocsToRemoteAddrs [] exAllocs 0x10000)))) = 16"
proof -
  have h1: "(0x10000 :: 64 word) \<noteq> 0" by simp
  have h2: "\<forall>A \<in> set exAllocs. isPowerOf2_32 (Align A) \<and> unat (Align A) dvd unat (0x10000 :: 64 word)"
    by (simp add: exAllocs_def newAlloc_def isPowerOf2_32_def)
  have h3: "unat (0x10000 :: 64 word) + specLayoutEnd 0 exAllocs < 2 ^ 64"
    by (simp add: exAllocs_def newAlloc_def roundUp_def)
  have r: "map (\<lambda>A. RemoteAddr A - 0x10000) (fst (snd (mapAllocsToRemoteAddrs [] exAllocs 0x10000))) =
     [0, 12]"
    by (simp add: exAllocs_def newAlloc_def alignTo_def Let_def)
  from notify_offsets_match_finalize [OF h1 h2 h3, of "[]" "{MF_READ}" "\<lparr>Start = 0x10000, End = 0x11000\<rparr>"] r
  have "map Dst (ContentCopies (makeSegment {MF_READ} \<lparr>Start = 0x10000, End = 0x11000\<rparr>
     (fst (snd (mapAllocsToRemoteAddrs [] exAllocs 0x10000))))) = [0, 12]" by simp
  moreover have "ContentSize (makeSegment {MF_READ} \<lparr>Start = 0x10000, End = 0x11000\<rparr>
     (fst (snd (mapAllocsToRemoteAddrs [] exAllocs 0x10000)))) = 16"
    by (simp add: exAllocs_def newAlloc_def alignTo_def makeSegment_def Let_def)
  ultimately show ?thesis using r by simp
qed

section \<open>Properties of finalizeMemory\<close>

text \<open>
  Claim C2, evaluated on the code. finalizeMemory is called with a null \<open>ErrMsg\<close>
  argument while the sticky error is set and one group is pending. The guard asks for a
  non-null argument as well, so the call does not bail out: it takes the group, issues
  its finalize call, returns \<open>false\<close> (success) and leaves the sticky error in place.
\<close>

theorem finalizeMemory_null_ErrMsg_ignores_sticky_error:
  "finalizeMemory okEPC False
     (exManager\<lparr>ErrMsg := ''out of memory'', Unfinalized := [exGroupA]\<rparr>) =
   (False, None,
    exManager\<lparr>ErrMsg := ''out of memory'', Unfinalized := [],
              Calls := [finalizeCall exSAs exGroupA]\<rparr>)"
  by (simp add: finalizeMemory_def okEPC_def exManager_def)

text \<open>With a non-null argument the call reports the sticky error, clears it and does
  nothing else; the next call runs the loop on the pending groups.\<close>

lemma finalizeMemory_reports_sticky_error:
  "ErrMsg M \<noteq> [] \<Longrightarrow>
   finalizeMemory EPC True M = (True, Some (ErrMsg M), M\<lparr>ErrMsg := []\<rparr>) \<and>
   finalizeMemory EPC True (M\<lparr>ErrMsg := []\<rparr>) =
     finalizeLoop EPC True (M\<lparr>ErrMsg := [], Unfinalized := []\<rparr>) (Unfinalized M)"
  by (simp add: finalizeMemory_def)

lemma finalizeLoop_ok:
  "finalizeLoop EPC H M Gs = (False, Out, M') \<Longrightarrow>
   Out = None \<and> M' = M\<lparr>Calls := Calls M @ map (finalizeCall (SAs M)) Gs\<rparr>"
proof (induction Gs arbitrary: M)
  case Nil
  then show ?case by simp
next
  case (Cons G Gs)
  let ?C = "finalizeCall (SAs M) G"
  let ?M1 = "M\<lparr>Calls := Calls M @ [?C]\<rparr>"
  from Cons.prems obtain A where r: "respond EPC (Calls M) ?C = Returned A"
    by (cases "respond EPC (Calls M) ?C") (simp_all add: Let_def)
  with Cons.prems have "finalizeLoop EPC H ?M1 Gs = (False, Out, M')"
    by (simp add: Let_def)
  from Cons.IH [OF this] show ?case by simp
qed

lemma finalizeLoop_failed:
  "finalizeLoop EPC H M Gs = (True, Out, M') \<Longrightarrow>
   \<exists>n E. n < length Gs \<and>
      Calls M' = Calls M @ map (finalizeCall (SAs M)) (take (Suc n) Gs) \<and>
      (respond EPC (Calls M @ map (finalizeCall (SAs M)) (take n Gs))
         (finalizeCall (SAs M) (Gs ! n)) = ChannelError E \<or>
       respond EPC (Calls M @ map (finalizeCall (SAs M)) (take n Gs))
         (finalizeCall (SAs M) (Gs ! n)) = ExecutorError E) \<and>
      ErrMsg M' = E \<and> Out = (if H then Some E else None) \<and>
      Unfinalized M' = Unfinalized M \<and> Unmapped M' = Unmapped M"
proof (induction Gs arbitrary: M)
  case Nil
  then show ?case by simp
next
  case (Cons G Gs)
  let ?C = "finalizeCall (SAs M) G"
  let ?M1 = "M\<lparr>Calls := Calls M @ [?C]\<rparr>"
  show ?case
  proof (cases "respond EPC (Calls M) ?C")
    case (ChannelError E)
    with Cons.prems show ?thesis
      by (intro exI [of _ 0] exI [of _ E]) (auto simp add: Let_def)
  next
    case (ExecutorError E)
    with Cons.prems show ?thesis
      by (intro exI [of _ 0] exI [of _ E]) (auto simp add: Let_def)
  next
    case (Returned A)
    with Cons.prems have "finalizeLoop EPC H ?M1 Gs = (True, Out, M')"
      by (simp add: Let_def)
    from Cons.IH [OF this] obtain n E where
      n: "n < length Gs"
      and c: "Calls M' = Calls ?M1 @ map (finalizeCall (SAs ?M1)) (take (Suc n) Gs)"
      and r: "respond EPC (Calls ?M1 @ map (finalizeCall (SAs ?M1)) (take n Gs))
                (finalizeCall (SAs ?M1) (Gs ! n)) = ChannelError E \<or>
              respond EPC (Calls ?M1 @ map (finalizeCall (SAs ?M1)) (take n Gs))
                (finalizeCall (SAs ?M1) (Gs ! n)) = ExecutorError E"
      and e: "ErrMsg M' = E" "Out = (if H then Some E else None)"
             "Unfinalized M' = Unfinalized ?M1" "Unmapped M' = Unmapped ?M1"
      by blast
    from n c r e show ?thesis
      by (intro exI [of _ "Suc n"] exI [of _ E]) simp
  qed
qed

lemma finalizeLoop_calls:
  "\<exists>n. n \<le> length Gs \<and>
     Calls (snd (snd (finalizeLoop EPC H M Gs))) =
       Calls M @ map (finalizeCall (SAs M)) (take n Gs) \<and>
     (\<not> fst (finalizeLoop EPC H M Gs) \<longrightarrow> n = length Gs)"
proof (cases "finalizeLoop EPC H M Gs")
  case (fields Failed Out M')
  show ?thesis
  proof (cases Failed)
    case True
    with fields have "finalizeLoop EPC H M Gs = (True, Out, M')" by simp
    from finalizeLoop_failed [OF this] obtain n where
      "n < length Gs" "Calls M' = Calls M @ map (finalizeCall (SAs M)) (take (Suc n) Gs)"
      by blast
    with fields True show ?thesis by (intro exI [of _ "Suc n"]) simp
  next
    case False
    with fields finalizeLoop_ok [of EPC H M Gs Out M'] show ?thesis
      by (intro exI [of _ "length Gs"]) simp
  qed
qed

text \<open>
  Claim C8. The calls finalizeMemory issues are the finalize calls of the first \<open>n\<close>
  groups of Unfinalized, one for each in order, and of all of them when it reports
  success. The call for a group goes to the finalize entry point and its request carries
  three segments, in the order code (read, execute), read-only data (read), read-write
  data (read, write), each at the start of the group's range of that class, and one
  register/deregister pair per pending frame of the group with the frame's address and
  size and the resolved entry points.
\<close>

theorem finalizeMemory_one_call_per_group:
  "(\<exists>n. n \<le> length (Unfinalized M) \<and>
      Calls (snd (snd (finalizeMemory EPC HasOut M))) =
        Calls M @ map (finalizeCall (SAs M)) (take n (Unfinalized M)) \<and>
      (\<not> fst (finalizeMemory EPC HasOut M) \<longrightarrow> n = length (Unfinalized M))) \<and>
   FnAddr (finalizeCall S G) = Finalize S \<and>
   (\<exists>R. Args (finalizeCall S G) = FinalizeArgs (Instance S) R \<and>
      map Prot (Segments R) = [{MF_READ, MF_EXEC}, {MF_READ}, {MF_READ, MF_WRITE}] \<and>
      map Addr (Segments R) =
        [Start (RemoteCode G), Start (RemoteROData G), Start (RemoteRWData G)] \<and>
      Actions R =
        map (\<lambda>F. ((RegisterEHFrame S, FrameAddr F, FrameSize F),
                   (DeregisterEHFrame S, FrameAddr F, FrameSize F)))
            (UnfinalizedEHFrames G))"
proof (intro conjI)
  show "\<exists>n. n \<le> length (Unfinalized M) \<and>
      Calls (snd (snd (finalizeMemory EPC HasOut M))) =
        Calls M @ map (finalizeCall (SAs M)) (take n (Unfinalized M)) \<and>
      (\<not> fst (finalizeMemory EPC HasOut M) \<longrightarrow> n = length (Unfinalized M))"
  proof (cases "HasOut \<and> ErrMsg M \<noteq> []")
    case True
    then show ?thesis by (intro exI [of _ 0]) (simp add: finalizeMemory_def)
  next
    case False
    then have "finalizeMemory EPC HasOut M =
                 finalizeLoop EPC HasOut (M\<lparr>Unfinalized := []\<rparr>) (Unfinalized M)"
      by (auto simp add: finalizeMemory_def)
    with finalizeLoop_calls [of "Unfinalized M" EPC HasOut "M\<lparr>Unfinalized := []\<rparr>"]
    show ?thesis by simp
  qed
  show "FnAddr (finalizeCall S G) = Finalize S" by (simp add: finalizeCall_def)
  show "\<exists>R. Args (finalizeCall S G) = FinalizeArgs (Instance S) R \<and>
      map Prot (Segments R) = [{MF_READ, MF_EXEC}, {MF_READ}, {MF_READ, MF_WRITE}] \<and>
      map Addr (Segments R) =
        [Start (RemoteCode G), Start (RemoteROData G), Start (RemoteRWData G)] \<and>
      Actions R =
        map (\<lambda>F. ((RegisterEHFrame S, FrameAddr F, FrameSize F),
                   (DeregisterEHFrame S, FrameAddr F, FrameSize F)))
            (UnfinalizedEHFrames G)"
    by (intro exI [of _ "makeRequest S G"])
       (simp add: finalizeCall_def makeRequest_def makeSegment_def toWireProtectionFlags_def
          frameAction_def split: prod.splits)
qed

theorem finalizeMemory_one_call_per_group_witness:
  "\<not> fst (finalizeMemory okEPC True (exManager\<lparr>Unfinalized := [exGroupA, exGroupB]\<rparr>)) \<and>
   Calls (snd (snd (finalizeMemory okEPC True (exManager\<lparr>Unfinalized := [exGroupA, exGroupB]\<rparr>)))) =
     [finalizeCall exSAs exGroupA, finalizeCall exSAs exGroupB]"
proof -
  let ?M = "exManager\<lparr>Unfinalized := [exGroupA, exGroupB]\<rparr>"
  have f: "\<not> fst (finalizeMemory okEPC True ?M)"
    by (simp add: finalizeMemory_def okEPC_def exManager_def)
  have u: "Unfinalized ?M = [exGroupA, exGroupB]" "Calls ?M = []" "SAs ?M = exSAs"
    by (simp_all add: exManager_def)
  from finalizeMemory_one_call_per_group [of ?M okEPC True] f
  have "Calls (snd (snd (finalizeMemory okEPC True ?M))) =
          Calls ?M @ map (finalizeCall (SAs ?M)) (Unfinalized ?M)"
    by auto
  with f u show ?thesis by simp
qed

text \<open>
  Claim C3 as stated, refuted. The claim says that groups taken but not yet processed
  when a finalize call fails remain available to a later call. Two groups are pending
  and the call for the first fails: the second was taken and never submitted, it is in
  neither sequence of the manager afterwards, and later calls to finalizeMemory (with
  or without an \<open>ErrMsg\<close> argument, against an executor that accepts every call) submit
  nothing for it.
\<close>

theorem finalizeMemory_loses_unprocessed_groups:
  "fst (finalizeMemory failEPC True (exManager\<lparr>Unfinalized := [exGroupA, exGroupB]\<rparr>)) \<and>
   Calls exFailed = [finalizeCall exSAs exGroupA] \<and>
   finalizeCall exSAs exGroupB \<noteq> finalizeCall exSAs exGroupA \<and>
   Unfinalized exFailed = [] \<and> Unmapped exFailed = [] \<and>
   Calls (snd (snd (finalizeMemory okEPC False exFailed))) = [finalizeCall exSAs exGroupA] \<and>
   Calls (snd (snd (finalizeMemory okEPC True exFailed))) = [finalizeCall exSAs exGroupA] \<and>
   Calls (snd (snd (finalizeMemory okEPC True (snd (snd (finalizeMemory okEPC True exFailed)))))) =
     [finalizeCall exSAs exGroupA]"
proof -
  have "finalizeCall exSAs exGroupB \<noteq> finalizeCall exSAs exGroupA"
    by (simp add: finalizeCall_def makeRequest_def makeSegment_def exGroupA_def exGroupB_def
        reservedGroup_def emptyGroup_def mkRange_def Let_def)
  then show ?thesis
    by (simp add: exFailed_def finalizeMemory_def failEPC_def okEPC_def exManager_def)
qed

text \<open>If finalizeMemory, not cut short by a pending sticky error, reports failure, then
  a finalize call failed, and the state afterwards is the one described below.\<close>

lemma finalizeMemory_failure_comes_from_failed_call:
  assumes "\<not> (HasOut \<and> ErrMsg M \<noteq> [])"
    and "finalizeMemory EPC HasOut M = (True, Out, M')"
  shows "\<exists>n E. n < length (Unfinalized M) \<and>
           Calls M' = Calls M @ map (finalizeCall (SAs M)) (take (Suc n) (Unfinalized M)) \<and>
           (respond EPC (Calls M @ map (finalizeCall (SAs M)) (take n (Unfinalized M)))
              (finalizeCall (SAs M) (Unfinalized M ! n)) = ChannelError E \<or>
            respond EPC (Calls M @ map (finalizeCall (SAs M)) (take n (Unfinalized M)))
              (finalizeCall (SAs M) (Unfinalized M ! n)) = ExecutorError E) \<and>
           ErrMsg M' = E \<and> Out = (if HasOut then Some E else None) \<and>
           Unfinalized M' = [] \<and> Unmapped M' = Unmapped M \<and>
           (\<forall>EPC' HasOut'. Calls (snd (snd (finalizeMemory EPC' HasOut' M'))) = Calls M')"
proof -
  from assms have "finalizeLoop EPC HasOut (M\<lparr>Unfinalized := []\<rparr>) (Unfinalized M) = (True, Out, M')"
    by (simp add: finalizeMemory_def split: if_splits)
  from finalizeLoop_failed [OF this] obtain n E where
    n: "n < length (Unfinalized M)"
    and c: "Calls M' = Calls M @ map (finalizeCall (SAs M)) (take (Suc n) (Unfinalized M))"
    and r: "respond EPC (Calls M @ map (finalizeCall (SAs M)) (take n (Unfinalized M)))
              (finalizeCall (SAs M) (Unfinalized M ! n)) = ChannelError E \<or>
            respond EPC (Calls M @ map (finalizeCall (SAs M)) (take n (Unfinalized M)))
              (finalizeCall (SAs M) (Unfinalized M ! n)) = ExecutorError E"
    and e: "ErrMsg M' = E" "Out = (if HasOut then Some E else None)"
    and u: "Unfinalized M' = []" "Unmapped M' = Unmapped M"
    by auto
  have l: "\<forall>EPC' HasOut'. Calls (snd (snd (finalizeMemory EPC' HasOut' M'))) = Calls M'"
    using u(1) by (simp add: finalizeMemory_def)
  from n c r e u l show ?thesis by blast
qed

lemma finalizeLoop_fails_at:
  assumes "n < length Gs"
    and "\<forall>i<n. \<exists>a. respond EPC (Calls M @ map (finalizeCall (SAs M)) (take i Gs))
                        (finalizeCall (SAs M) (Gs ! i)) = Returned a"
    and "respond EPC (Calls M @ map (finalizeCall (SAs M)) (take n Gs))
           (finalizeCall (SAs M) (Gs ! n)) = ChannelError E \<or>
         respond EPC (Calls M @ map (finalizeCall (SAs M)) (take n Gs))
           (finalizeCall (SAs M) (Gs ! n)) = ExecutorError E"
  shows "fst (finalizeLoop EPC H M Gs) \<and>
         fst (snd (finalizeLoop EPC H M Gs)) = (if H then Some E else None) \<and>
         Calls (snd (snd (finalizeLoop EPC H M Gs))) =
           Calls M @ map (finalizeCall (SAs M)) (take (Suc n) Gs) \<and>
         ErrMsg (snd (snd (finalizeLoop EPC H M Gs))) = E \<and>
         Unfinalized (snd (snd (finalizeLoop EPC H M Gs))) = Unfinalized M \<and>
         Unmapped (snd (snd (finalizeLoop EPC H M Gs))) = Unmapped M"
  using assms
proof (induction Gs arbitrary: M n)
  case Nil
  then show ?case by simp
next
  case (Cons G Gs)
  let ?C = "finalizeCall (SAs M) G"
  let ?M1 = "M\<lparr>Calls := Calls M @ [?C]\<rparr>"
  show ?case
  proof (cases n)
    case 0
    with Cons.prems(3) have "respond EPC (Calls M) ?C = ChannelError E \<or>
        respond EPC (Calls M) ?C = ExecutorError E" by simp
    with 0 show ?thesis by (auto simp add: Let_def)
  next
    case (Suc m)
    from Cons.prems(2) Suc have "\<exists>a. respond EPC (Calls M @ map (finalizeCall (SAs M)) (take 0 (G # Gs)))
                        (finalizeCall (SAs M) ((G # Gs) ! 0)) = Returned a" by blast
    then obtain a where a: "respond EPC (Calls M) ?C = Returned a" by auto
    then have step: "finalizeLoop EPC H M (G # Gs) = finalizeLoop EPC H ?M1 Gs"
      by (simp add: Let_def)
    have m: "m < length Gs" using Cons.prems(1) Suc by simp
    have p2: "\<forall>i<m. \<exists>a. respond EPC (Calls ?M1 @ map (finalizeCall (SAs ?M1)) (take i Gs))
                        (finalizeCall (SAs ?M1) (Gs ! i)) = Returned a"
    proof (intro allI impI)
      fix i assume "i < m"
      then have "Suc i < n" using Suc by simp
      with Cons.prems(2) have "\<exists>a. respond EPC
          (Calls M @ map (finalizeCall (SAs M)) (take (Suc i) (G # Gs)))
          (finalizeCall (SAs M) ((G # Gs) ! Suc i)) = Returned a" by blast
      then show "\<exists>a. respond EPC (Calls ?M1 @ map (finalizeCall (SAs ?M1)) (take i Gs))
                        (finalizeCall (SAs ?M1) (Gs ! i)) = Returned a" by simp
    qed
    have p3: "respond EPC (Calls ?M1 @ map (finalizeCall (SAs ?M1)) (take m Gs))
           (finalizeCall (SAs ?M1) (Gs ! m)) = ChannelError E \<or>
         respond EPC (Calls ?M1 @ map (finalizeCall (SAs ?M1)) (take m Gs))
           (finalizeCall (SAs ?M1) (Gs ! m)) = ExecutorError E"
      using Cons.prems(3) Suc by simp
    from Cons.IH [OF m p2 p3] step Suc show ?thesis by simp
  qed
qed

lemma finalizeMemory_nothing_pending:
  "Unfinalized N = [] \<Longrightarrow> Calls (snd (snd (finalizeMemory EPC' HasOut' N))) = Calls N"
  by (simp add: finalizeMemory_def)

text \<open>
  Claim C3, amended. When the finalize remote call for the group at position \<open>n\<close> fails
  (the calls for the groups before it succeeded, and the call to finalizeMemory was not
  cut short by a pending sticky error), finalizeMemory reports failure; the calls issued
  are the finalize calls of the groups up to the failing one, each once and the failing
  one last (no retry); the error of the failing call becomes the sticky error and is
  written through a non-null \<open>ErrMsg\<close> argument; every group the call took, processed
  or not, is gone from the manager (Unfinalized is empty, Unmapped is untouched), so that
  a following call to finalizeMemory issues no remote call: groups whose finalize call
  completed are not submitted again, and only groups accumulated later are affected by
  later calls.
\<close>

theorem finalizeMemory_failure_drops_taken_groups:
  assumes "\<not> (HasOut \<and> ErrMsg M \<noteq> [])"
    and "n < length (Unfinalized M)"
    and "\<forall>i<n. \<exists>a. respond EPC (Calls M @ map (finalizeCall (SAs M)) (take i (Unfinalized M)))
                        (finalizeCall (SAs M) (Unfinalized M ! i)) = Returned a"
    and "respond EPC (Calls M @ map (finalizeCall (SAs M)) (take n (Unfinalized M)))
           (finalizeCall (SAs M) (Unfinalized M ! n)) = ChannelError E \<or>
         respond EPC (Calls M @ map (finalizeCall (SAs M)) (take n (Unfinalized M)))
           (finalizeCall (SAs M) (Unfinalized M ! n)) = ExecutorError E"
  shows "fst (finalizeMemory EPC HasOut M) \<and>
         fst (snd (finalizeMemory EPC HasOut M)) = (if HasOut then Some E else None) \<and>
         Calls (snd (snd (finalizeMemory EPC HasOut M))) =
           Calls M @ map (finalizeCall (SAs M)) (take (Suc n) (Unfinalized M)) \<and>
         ErrMsg (snd (snd (finalizeMemory EPC HasOut M))) = E \<and>
         Unfinalized (snd (snd (finalizeMemory EPC HasOut M))) = [] \<and>
         Unmapped (snd (snd (finalizeMemory EPC HasOut M))) = Unmapped M \<and>
         (\<forall>EPC' HasOut'.
            Calls (snd (snd (finalizeMemory EPC' HasOut' (snd (snd (finalizeMemory EPC HasOut M)))))) =
              Calls (snd (snd (finalizeMemory EPC HasOut M))))"
proof -
  let ?M0 = "M\<lparr>Unfinalized := []\<rparr>"
  have e: "finalizeMemory EPC HasOut M = finalizeLoop EPC HasOut ?M0 (Unfinalized M)"
    using assms(1) by (auto simp add: finalizeMemory_def)
  have p2: "\<forall>i<n. \<exists>a. respond EPC (Calls ?M0 @ map (finalizeCall (SAs ?M0)) (take i (Unfinalized M)))
                        (finalizeCall (SAs ?M0) (Unfinalized M ! i)) = Returned a"
    using assms(3) by simp
  have p3: "respond EPC (Calls ?M0 @ map (finalizeCall (SAs ?M0)) (take n (Unfinalized M)))
           (finalizeCall (SAs ?M0) (Unfinalized M ! n)) = ChannelError E \<or>
         respond EPC (Calls ?M0 @ map (finalizeCall (SAs ?M0)) (take n (Unfinalized M)))
           (finalizeCall (SAs ?M0) (Unfinalized M ! n)) = ExecutorError E"
    using assms(4) by simp
  note l = finalizeLoop_fails_at [OF assms(2) p2 p3, of HasOut]
  from l have u: "Unfinalized (snd (snd (finalizeMemory EPC HasOut M))) = []"
    by (simp add: e)
  have later: "\<forall>EPC' HasOut'.
            Calls (snd (snd (finalizeMemory EPC' HasOut' (snd (snd (finalizeMemory EPC HasOut M)))))) =
              Calls (snd (snd (finalizeMemory EPC HasOut M)))"
    using finalizeMemory_nothing_pending [OF u] by blast
  from l later show ?thesis by (simp add: e)
qed

theorem finalizeMemory_failure_drops_taken_groups_witness:
  "fst (finalizeMemory failSecondEPC True (exManager\<lparr>Unfinalized := [exGroupA, exGroupB, exGroupA]\<rparr>)) \<and>
   fst (snd (finalizeMemory failSecondEPC True (exManager\<lparr>Unfinalized := [exGroupA, exGroupB, exGroupA]\<rparr>))) =
     Some ''out of memory'' \<and>
   Calls (snd (snd (finalizeMemory failSecondEPC True (exManager\<lparr>Unfinalized := [exGroupA, exGroupB, exGroupA]\<rparr>)))) =
     [finalizeCall exSAs exGroupA, finalizeCall exSAs exGroupB] \<and>
   Unfinalized (snd (snd (finalizeMemory failSecondEPC True (exManager\<lparr>Unfinalized := [exGroupA, exGroupB, exGroupA]\<rparr>)))) = [] \<and>
   ErrMsg (snd (snd (finalizeMemory failSecondEPC True (exManager\<lparr>Unfinalized := [exGroupA, exGroupB, exGroupA]\<rparr>)))) =
     ''out of memory''"
proof -
  let ?M = "exManager\<lparr>Unfinalized := [exGroupA, exGroupB, exGroupA]\<rparr>"
  have h1: "\<not> (True \<and> ErrMsg ?M \<noteq> [])" by (simp add: exManager_def)
  have h2: "1 < length (Unfinalized ?M)" by simp
  have h3: "\<forall>i<1. \<exists>a. respond failSecondEPC
              (Calls ?M @ map (finalizeCall (SAs ?M)) (take i (Unfinalized ?M)))
              (finalizeCall (SAs ?M) (Unfinalized ?M ! i)) = Returned a"
    by (simp add: failSecondEPC_def exManager_def)
  have h4: "respond failSecondEPC
              (Calls ?M @ map (finalizeCall (SAs ?M)) (take 1 (Unfinalized ?M)))
              (finalizeCall (SAs ?M) (Unfinalized ?M ! 1)) = ChannelError ''out of memory'' \<or>
            respond failSecondEPC
              (Calls ?M @ map (finalizeCall (SAs ?M)) (take 1 (Unfinalized ?M)))
              (finalizeCall (SAs ?M) (Unfinalized ?M ! 1)) = ExecutorError ''out of memory''"
    by (simp add: failSecondEPC_def exManager_def)
  from finalizeMemory_failure_drops_taken_groups [OF h1 h2 h3 h4]
  show ?thesis by (simp add: exManager_def)
qed

section \<open>Properties of the destructor\<close>

lemma destructor_call:
  "Calls (destructor EPC M) =
     Calls M @ [WrapperCall (Reserve (SAs M)) (DeallocateArgs (Instance (SAs M)) (FinalizedAllocs M))]"
  by (simp add: destructor_def Let_def split: CallResult.splits)

lemma destructor_keeps_state:
  "ErrMsg (destructor EPC M) = ErrMsg M \<and> Unmapped (destructor EPC M) = Unmapped M \<and>
   Unfinalized (destructor EPC M) = Unfinalized M"
  by (simp add: destructor_def Let_def split: CallResult.splits)

text \<open>
  Claim C1, evaluated on the code. A manager reserves, maps and finalizes one group with
  success (the remote calls so far: one reserve call to \<open>0x20\<close>, one finalize call) and
  is then destroyed. The destructor issues one call with the deallocate arguments, but it
  is directed at the address of the reserve entry point (\<open>0x20\<close>), not at the resolved
  deallocate entry point (\<open>0x40\<close>), and it carries an empty list although one group
  was finalized: nothing ever adds to FinalizedAllocs.
\<close>

theorem destructor_calls_reserve_address:
  "Calls exFinalized =
     [WrapperCall 0x20 (ReserveArgs 0x10 0x2000),
      finalizeCall exSAs (reservedGroup 4096 0x10000 10 4 0)] \<and>
   ErrMsg exFinalized = [] \<and>
   Calls (destructor okEPC exFinalized) =
     Calls exFinalized @ [WrapperCall 0x20 (DeallocateArgs 0x10 [])] \<and>
   Reserve (SAs exFinalized) = 0x20 \<and> Deallocate (SAs exFinalized) = 0x40"
  by (simp add: exFinalized_def finalizeMemory_def notifyObjectLoaded_def
      reserveAllocationSpace_def destructor_def okEPC_def exManager_def exSAs_def
      isPowerOf2_32_def alignTo_def reservedGroup_def emptyGroup_def mkRange_def Let_def)

end
